theory Spec2Isabelle
  imports Main
begin

section \<open>Strings\<close>

text \<open>
  A Python \<open>str\<close> is a sequence of Unicode code points; a code point is a natural number.
  \<open>ascii\<close> embeds a literal whose characters are all below U+0080.
\<close>

type_synonym str = "nat list"

definition ascii :: "string \<Rightarrow> str" where
  "ascii s = map of_char s"

text \<open>
  \<open>str.isspace\<close> on one code point, which is also the set \<open>str.strip()\<close> removes and the
  set the pattern \<open>\s\<close> matches on a \<open>str\<close>: U+0009..U+000D, U+001C..U+0020, U+0085, U+00A0,
  U+1680, U+2000..U+200A, U+2028, U+2029, U+202F, U+205F, U+3000.
\<close>

definition isspace :: "nat \<Rightarrow> bool" where
  "isspace c \<longleftrightarrow>
     (9 \<le> c \<and> c \<le> 13) \<or> (28 \<le> c \<and> c \<le> 32) \<or> c = 133 \<or> c = 160 \<or> c = 5760 \<or>
     (8192 \<le> c \<and> c \<le> 8202) \<or> c = 8232 \<or> c = 8233 \<or> c = 8239 \<or> c = 8287 \<or> c = 12288"

definition strip :: "str \<Rightarrow> str" where
  "strip s = rev (dropWhile isspace (rev (dropWhile isspace s)))"

text \<open>
  \<open>str.lower()\<close>, one code point at a time. The table is Python's for every code point up to
  U+00FF and for the five code points above it whose lower case reaches that range
  (U+0130, U+0178, U+1E9E, U+212A, U+212B). Every other code point is lowered by Python to
  code points above U+00FF and is left as it is here: \<open>normalize_name\<close> deletes all of
  them, and a string holding one is different from \<open>si\<close>, so neither use can tell the
  difference.
\<close>

definition lower_cp :: "nat \<Rightarrow> str" where
  "lower_cp c =
     (if 65 \<le> c \<and> c \<le> 90 then [c + 32]
      else if 192 \<le> c \<and> c \<le> 222 \<and> c \<noteq> 215 then [c + 32]
      else if c = 304 then [105, 775]
      else if c = 376 then [255]
      else if c = 7838 then [223]
      else if c = 8490 then [107]
      else if c = 8491 then [229]
      else [c])"

definition lower :: "str \<Rightarrow> str" where
  "lower s = concat (map lower_cp s)"

section \<open>The normalizer\<close>

text \<open>\<open>re.sub(r"[xyz]", "r", name)\<close>: every code point of the class becomes \<open>r\<close>.\<close>

definition sub_class :: "nat list \<Rightarrow> nat \<Rightarrow> str \<Rightarrow> str" where
  "sub_class cls r s = map (\<lambda>c. if c \<in> set cls then r else c) s"

text \<open>The class \<open>[a-z0-9 ]\<close>.\<close>

definition key_char :: "nat \<Rightarrow> bool" where
  "key_char c \<longleftrightarrow> (97 \<le> c \<and> c \<le> 122) \<or> (48 \<le> c \<and> c \<le> 57) \<or> c = 32"

text \<open>\<open>re.sub(r"\s+", " ", name)\<close>: every maximal run of white space becomes one space.\<close>

function collapse_ws :: "str \<Rightarrow> str" where
  "collapse_ws [] = []"
| "collapse_ws (c # cs) =
     (if isspace c then 32 # collapse_ws (dropWhile isspace cs) else c # collapse_ws cs)"
  by pat_completeness auto
termination
  by (relation "measure length") (auto simp: length_dropWhile_le less_Suc_eq_le)

text \<open>
  \<open>normalize_name\<close>, innermost step first: \<open>strip().lower()\<close>, the five accent
  substitutions, the deletion of everything outside \<open>[a-z0-9 ]\<close>, the collapse of
  white space.
\<close>

definition normalize_name :: "str \<Rightarrow> str" where
  "normalize_name name =
     collapse_ws
       (filter key_char
         (sub_class [250, 249, 252] 117
           (sub_class [243, 242, 246] 111
             (sub_class [237, 236, 239] 105
               (sub_class [233, 232, 235] 101
                 (sub_class [225, 224, 228] 97
                   (lower (strip name))))))))"

definition slugify :: "str \<Rightarrow> str" where
  "slugify name = map (\<lambda>c. if c = 32 then 45 else c) (normalize_name name)"

text \<open>
  A string in which \<open>collapse_ws\<close> finds nothing to do: every white-space code point is
  a space, and no two stand next to each other.
\<close>

fun ws_ok :: "str \<Rightarrow> bool" where
  "ws_ok [] = True"
| "ws_ok [c] = (isspace c \<longrightarrow> c = 32)"
| "ws_ok (c # d # cs) = ((isspace c \<longrightarrow> c = 32 \<and> \<not> isspace d) \<and> ws_ok (d # cs))"

section \<open>Records on disk\<close>

text \<open>
  What \<open>json.load\<close> returns. A JSON object is a Python \<open>dict\<close>: an association list in
  insertion order. Numbers are never inspected by the program and are kept as integers.
\<close>

datatype json =
    JNull
  | JBool bool
  | JNum int
  | JStr str
  | JArr "json list"
  | JObj "(str \<times> json) list"

definition dict_get :: "('k \<times> 'v) list \<Rightarrow> 'k \<Rightarrow> 'v option" where
  "dict_get d k = map_of d k"

text \<open>\<open>d[k] = v\<close>: an existing key keeps its position, a new key goes to the end.\<close>

fun dict_set :: "('k \<times> 'v) list \<Rightarrow> 'k \<Rightarrow> 'v \<Rightarrow> ('k \<times> 'v) list" where
  "dict_set [] k v = [(k, v)]"
| "dict_set ((k', v') # d) k v =
     (if k' = k then (k, v) # d else (k', v') # dict_set d k v)"

text \<open>
  What a name under \<open>data/clients\<close> leads to: a directory, a file whose text
  \<open>json.load\<close> rejects, or a file whose text it parses.
\<close>

datatype entry = Directory | Unparseable | Parsed json

text \<open>
  The files are opened with \<open>encoding="utf-8"\<close>, which encodes every code point but the
  surrogates U+D800..U+DFFF. A line read by \<open>input()\<close> can hold one (an undecodable byte
  under the \<open>surrogateescape\<close> handler), and so can a string that \<open>json.load\<close> returns.
  \<open>json.dump(..., ensure_ascii=False)\<close> writes strings as they are, keys and values alike.
\<close>

definition str_encodable :: "str \<Rightarrow> bool" where
  "str_encodable s \<longleftrightarrow> list_all (\<lambda>c. \<not> (55296 \<le> c \<and> c \<le> 57343)) s"

fun json_encodable :: "json \<Rightarrow> bool" where
  "json_encodable JNull = True"
| "json_encodable (JBool b) = True"
| "json_encodable (JNum n) = True"
| "json_encodable (JStr s) = str_encodable s"
| "json_encodable (JArr xs) = list_all json_encodable xs"
| "json_encodable (JObj kvs) =
     list_all (\<lambda>kv. str_encodable (fst kv) \<and> json_encodable (snd kv)) kvs"

datatype pyexc =
    JSONDecodeError
  | TypeError
  | KeyError
  | AttributeError
  | FileNotFoundError
  | IsADirectoryError
  | UnicodeEncodeError

text \<open>
  How an operation ends. The program prints a message and returns; the constructors are
  named after the error each message stands for: \<open>EmptyInput\<close> is the message of
  \<open>require_non_empty\<close> ("No puede ir ..."), \<open>Conflict\<close> is "Ya existe ese cliente.",
  \<open>NotFound\<close> is "Cliente no encontrado.", \<open>InvalidSelector\<close> is the message of the last
  branch of \<open>modify_client\<close>, \<open>Cancelled\<close> is "Cancelado.". \<open>Done\<close> is the
  normal end of the function, \<open>Raised\<close> an exception that leaves it.
\<close>

datatype outcome =
    Done
  | EmptyInput
  | Conflict
  | NotFound
  | InvalidSelector
  | Cancelled
  | Raised pyexc

text \<open>
  The persisted state. \<open>clients\<close> is the directory \<open>data/clients\<close>, a name to what it
  leads to (names are plain names inside that directory); \<open>index_file\<close> is
  \<open>data/index.json\<close>, absent or holding the dictionary last dumped; \<open>queries_log\<close> is the
  lines of \<open>logs/queries.log\<close>. \<open>writes\<close> is an auxiliary trace: every write to or removal
  from the disk appends one event, so that two equal states have seen the same writes.
  The in-memory \<open>index\<close> dictionary is a map from key to file name. The index file
  and the log are regular files or absent, and the index holds keys and file names that
  encode, as all those the program makes do (a key is over \<open>[a-z0-9 ]\<close>, a file name is a
  uuid, a slug and an extension): dumping the index succeeds. Printing succeeds.
\<close>

datatype io_event = WriteRecord str | RemoveRecord str | WriteIndex | AppendLog

type_synonym index = "str \<rightharpoonup> str"

record world =
  clients :: "str \<rightharpoonup> entry"
  index_file :: "index option"
  queries_log :: "str list"
  writes :: "io_event list"

definition load_index :: "world \<Rightarrow> index" where
  "load_index w = (case index_file w of Some index \<Rightarrow> index | None \<Rightarrow> Map.empty)"

definition save_index :: "world \<Rightarrow> index \<Rightarrow> world" where
  "save_index w index = w\<lparr>index_file := Some index, writes := writes w @ [WriteIndex]\<rparr>"

text \<open>
  \<open>with open(path, "w") as f: json.dump(cliente, f, ...)\<close>. Opening a directory raises
  \<open>IsADirectoryError\<close> and touches nothing. Opening anything else creates or empties the
  file; the dump then writes the record piece by piece and raises \<open>UnicodeEncodeError\<close>
  at the first string that does not encode, and the file is closed with the part written
  before it, which \<open>json.load\<close> rejects. \<open>record_written\<close> is the disk after a dump that
  went through, \<open>record_truncated\<close> the disk after one that raised. The result is the
  exception, if any, and the disk.
\<close>

definition record_written :: "world \<Rightarrow> str \<Rightarrow> json \<Rightarrow> world" where
  "record_written w path cliente =
     w\<lparr>clients := (clients w)(path \<mapsto> Parsed cliente), writes := writes w @ [WriteRecord path]\<rparr>"

definition record_truncated :: "world \<Rightarrow> str \<Rightarrow> world" where
  "record_truncated w path =
     w\<lparr>clients := (clients w)(path \<mapsto> Unparseable), writes := writes w @ [WriteRecord path]\<rparr>"

definition write_record :: "world \<Rightarrow> str \<Rightarrow> json \<Rightarrow> pyexc option \<times> world" where
  "write_record w path cliente =
     (if clients w path = Some Directory then (Some IsADirectoryError, w)
      else if json_encodable cliente then (None, record_written w path cliente)
      else (Some UnicodeEncodeError, record_truncated w path))"

text \<open>\<open>with open(path, "r") as f: json.load(f)\<close>\<close>

definition read_record :: "world \<Rightarrow> str \<Rightarrow> pyexc + json" where
  "read_record w path =
     (case clients w path of
        None \<Rightarrow> Inl FileNotFoundError
      | Some Directory \<Rightarrow> Inl IsADirectoryError
      | Some Unparseable \<Rightarrow> Inl JSONDecodeError
      | Some (Parsed cliente) \<Rightarrow> Inr cliente)"

text \<open>
  \<open>os.remove(path)\<close> raises \<open>FileNotFoundError\<close> when the name leads nowhere and
  \<open>IsADirectoryError\<close> when it leads to a directory.
\<close>

definition os_remove :: "world \<Rightarrow> str \<Rightarrow> pyexc + world" where
  "os_remove w path =
     (case clients w path of
        None \<Rightarrow> Inl FileNotFoundError
      | Some Directory \<Rightarrow> Inl IsADirectoryError
      | Some _ \<Rightarrow>
          Inr (w\<lparr>clients := (clients w)(path := None),
                 writes := writes w @ [RemoveRecord path]\<rparr>))"

section \<open>The operations\<close>

text \<open>
  Each \<open>input(...)\<close> of the source is an argument holding the line typed; each
  \<open>uuid.uuid4()\<close> and \<open>now_iso()\<close> is an argument holding the string it returns. An
  operation returns how it ended, the index dictionary it was given as the call leaves it,
  and the persisted state.
\<close>

definition require_non_empty :: "str \<Rightarrow> str" where
  "require_non_empty line = (let v = strip line in if v = [] then [] else v)"

definition new_request :: "str \<Rightarrow> str \<Rightarrow> str \<Rightarrow> str \<Rightarrow> json" where
  "new_request request_id servicio descripcion fecha =
     JObj [(ascii ''request_id'', JStr request_id),
           (ascii ''servicio'', JStr servicio),
           (ascii ''descripcion'', JStr descripcion),
           (ascii ''fecha_solicitud'', JStr fecha),
           (ascii ''canal'', JStr (ascii ''call center''))]"

definition client_filename :: "str \<Rightarrow> str \<Rightarrow> str" where
  "client_filename customer_id name = customer_id @ ascii ''_'' @ slugify name @ ascii ''.json''"

definition new_client :: "str \<Rightarrow> str \<Rightarrow> str \<Rightarrow> str \<Rightarrow> str \<Rightarrow> json \<Rightarrow> json" where
  "new_client customer_id name tipo contacto fecha_alta solicitud =
     JObj [(ascii ''customer_id'', JStr customer_id),
           (ascii ''nombre'', JStr name),
           (ascii ''tipo_cliente'', JStr tipo),
           (ascii ''contacto'', JStr contacto),
           (ascii ''fecha_alta'', JStr fecha_alta),
           (ascii ''solicitudes'', JArr [solicitud])]"

definition create_client ::
  "index \<Rightarrow> world \<Rightarrow> str \<Rightarrow> str \<Rightarrow> str \<Rightarrow> str \<Rightarrow> str \<Rightarrow> str \<Rightarrow> str \<Rightarrow> str \<Rightarrow> str
     \<Rightarrow> outcome \<times> index \<times> world" where
  "create_client index w name_in tipo_in contacto_in servicio_in descripcion_in
       customer_uuid alta_now request_uuid solicitud_now =
     (let name = require_non_empty name_in in
      if name = [] then (EmptyInput, index, w)
      else let key = normalize_name name in
      if key \<in> dom index then (Conflict, index, w)
      else let tipo = (if strip tipo_in = [] then ascii ''Persona'' else strip tipo_in);
               contacto = (if strip contacto_in = [] then ascii ''N/A'' else strip contacto_in);
               servicio = require_non_empty servicio_in in
      if servicio = [] then (EmptyInput, index, w)
      else let descripcion = require_non_empty descripcion_in in
      if descripcion = [] then (EmptyInput, index, w)
      else let filename = client_filename customer_uuid name;
               cliente = new_client customer_uuid name tipo contacto alta_now
                           (new_request request_uuid servicio descripcion solicitud_now)
           in case write_record w filename cliente of
                (Some e, w1) \<Rightarrow> (Raised e, index, w1)
              | (None, w1) \<Rightarrow>
                  (let index1 = index(key \<mapsto> filename)
                   in (Done, index1, save_index w1 index1)))"

text \<open>
  \<open>find_client_file\<close> returns the path or \<open>None\<close>. \<open>not filename\<close> holds for a missing key
  and for an empty file name; \<open>path.exists()\<close> holds for a file and for a directory.
\<close>

definition find_client_file :: "index \<Rightarrow> world \<Rightarrow> str \<Rightarrow> str option" where
  "find_client_file index w name =
     (let key = normalize_name name in
      case index key of
        None \<Rightarrow> None
      | Some filename \<Rightarrow>
          if filename = [] then None
          else if clients w filename = None then None
          else Some filename)"

definition consult_client :: "index \<Rightarrow> world \<Rightarrow> str \<Rightarrow> str \<Rightarrow> outcome \<times> index \<times> world" where
  "consult_client index w name_in log_now =
     (let name = require_non_empty name_in in
      if name = [] then (EmptyInput, index, w)
      else case find_client_file index w name of
        None \<Rightarrow> (NotFound, index, w)
      | Some path \<Rightarrow>
          (case read_record w path of
             Inl e \<Rightarrow> (Raised e, index, w)
           | Inr cliente \<Rightarrow>
               let line = log_now @ ascii '' | CONSULTA | '' @ name in
               if str_encodable line
               then (Done, index,
                     w\<lparr>queries_log := queries_log w @ [line],
                       writes := writes w @ [AppendLog]\<rparr>)
               else (Raised UnicodeEncodeError, index, w)))"

text \<open>\<open>cliente["contacto"] = nuevo\<close>: only a dictionary takes an item under a string key.\<close>

definition set_item :: "json \<Rightarrow> str \<Rightarrow> json \<Rightarrow> pyexc + json" where
  "set_item cliente k v =
     (case cliente of JObj kvs \<Rightarrow> Inr (JObj (dict_set kvs k v)) | _ \<Rightarrow> Inl TypeError)"

text \<open>
  \<open>cliente["solicitudes"].append(r)\<close>: the subscript raises \<open>KeyError\<close> on a dictionary
  without the key and \<open>TypeError\<close> on anything that is not a dictionary; \<open>append\<close> exists
  on lists only. The list is changed in place, inside the dictionary.
\<close>

definition append_item :: "json \<Rightarrow> str \<Rightarrow> json \<Rightarrow> pyexc + json" where
  "append_item cliente k r =
     (case cliente of
        JObj kvs \<Rightarrow>
          (case dict_get kvs k of
             None \<Rightarrow> Inl KeyError
           | Some (JArr xs) \<Rightarrow> Inr (JObj (dict_set kvs k (JArr (xs @ [r]))))
           | Some _ \<Rightarrow> Inl AttributeError)
      | _ \<Rightarrow> Inl TypeError)"

definition modify_client ::
  "index \<Rightarrow> world \<Rightarrow> str \<Rightarrow> str \<Rightarrow> str \<Rightarrow> str \<Rightarrow> str \<Rightarrow> str \<Rightarrow> outcome \<times> index \<times> world" where
  "modify_client index w name_in opt_in in1 in2 request_uuid solicitud_now =
     (let name = require_non_empty name_in in
      if name = [] then (EmptyInput, index, w)
      else case find_client_file index w name of
        None \<Rightarrow> (NotFound, index, w)
      | Some path \<Rightarrow>
          (case read_record w path of
             Inl e \<Rightarrow> (Raised e, index, w)
           | Inr cliente \<Rightarrow>
               let opt = strip opt_in in
               if opt = ascii ''1'' then
                 (let nuevo = require_non_empty in1 in
                  if nuevo = [] then (EmptyInput, index, w)
                  else case set_item cliente (ascii ''contacto'') (JStr nuevo) of
                    Inl e \<Rightarrow> (Raised e, index, w)
                  | Inr cliente1 \<Rightarrow>
                      (case write_record w path cliente1 of
                         (Some e, w1) \<Rightarrow> (Raised e, index, w1)
                       | (None, w1) \<Rightarrow> (Done, index, w1)))
               else if opt = ascii ''2'' then
                 (let servicio = require_non_empty in1 in
                  if servicio = [] then (EmptyInput, index, w)
                  else let descripcion = require_non_empty in2 in
                  if descripcion = [] then (EmptyInput, index, w)
                  else case append_item cliente (ascii ''solicitudes'')
                              (new_request request_uuid servicio descripcion solicitud_now) of
                    Inl e \<Rightarrow> (Raised e, index, w)
                  | Inr cliente1 \<Rightarrow>
                      (case write_record w path cliente1 of
                         (Some e, w1) \<Rightarrow> (Raised e, index, w1)
                       | (None, w1) \<Rightarrow> (Done, index, w1)))
               else (InvalidSelector, index, w)))"

definition delete_client :: "index \<Rightarrow> world \<Rightarrow> str \<Rightarrow> str \<Rightarrow> outcome \<times> index \<times> world" where
  "delete_client index w name_in confirm_in =
     (let name = require_non_empty name_in in
      if name = [] then (EmptyInput, index, w)
      else let key = normalize_name name in
      case find_client_file index w name of
        None \<Rightarrow> (NotFound, index, w)
      | Some path \<Rightarrow>
          let confirm = lower (strip confirm_in) in
          if confirm \<noteq> ascii ''si'' then (Cancelled, index, w)
          else case os_remove w path of
            Inl e \<Rightarrow> (Raised e, index, w)
          | Inr w1 \<Rightarrow>
              if key \<in> dom index
              then (let index1 = index(key := None) in (Done, index1, save_index w1 index1))
              else (Done, index, w1))"

section \<open>Sequences of operations\<close>

text \<open>
  The request that option 2 of \<open>modify_client\<close> builds from the lines typed, the identifier
  drawn and the time read. An input is (name, service, description, uuid, time).
\<close>

fun request_of :: "str \<times> str \<times> str \<times> str \<times> str \<Rightarrow> json" where
  "request_of (name_in, servicio_in, descripcion_in, request_uuid, solicitud_now) =
     new_request request_uuid (require_non_empty servicio_in)
       (require_non_empty descripcion_in) solicitud_now"

text \<open>
  \<open>modify_client\<close> called with option 2 once per input, in order, on the same index; the
  run stops at the first call that does not end normally.
\<close>

fun run_appends :: "index \<Rightarrow> world \<Rightarrow> (str \<times> str \<times> str \<times> str \<times> str) list \<Rightarrow> outcome \<times> world" where
  "run_appends index w [] = (Done, w)"
| "run_appends index w ((name_in, servicio_in, descripcion_in, request_uuid, solicitud_now) # rest) =
     (case modify_client index w name_in (ascii ''2'') servicio_in descripcion_in
             request_uuid solicitud_now of
        (out, index1, w1) \<Rightarrow> if out = Done then run_appends index1 w1 rest else (out, w1))"

text \<open>
  The loop of \<open>main\<close>. A command is one choice of the menu with the lines typed and the
  identifiers and times drawn while it runs (choice 1 only prints and is left out). The
  index is read again from disk after a create and after a delete. An exception ends the
  program: the loop returns it with the disk as it is then, and returns \<open>None\<close> when
  every command has run.
\<close>

datatype command =
    Consult str str
  | Create str str str str str str str str str
  | Modify str str str str str str
  | Delete str str

fun exc_of :: "outcome \<Rightarrow> pyexc option" where
  "exc_of (Raised e) = Some e"
| "exc_of out = None"

fun is_modify :: "command \<Rightarrow> bool" where
  "is_modify (Modify name_in opt_in in1 in2 request_uuid solicitud_now) = True"
| "is_modify c = False"

fun main_loop :: "index \<Rightarrow> world \<Rightarrow> command list \<Rightarrow> pyexc option \<times> world" where
  "main_loop index w [] = (None, w)"
| "main_loop index w (Consult name_in log_now # rest) =
     (case consult_client index w name_in log_now of
        (out, index1, w1) \<Rightarrow>
          if exc_of out \<noteq> None then (exc_of out, w1) else main_loop index1 w1 rest)"
| "main_loop index w (Create name_in tipo_in contacto_in servicio_in descripcion_in
                        customer_uuid alta_now request_uuid solicitud_now # rest) =
     (case create_client index w name_in tipo_in contacto_in servicio_in descripcion_in
             customer_uuid alta_now request_uuid solicitud_now of
        (out, index1, w1) \<Rightarrow>
          if exc_of out \<noteq> None then (exc_of out, w1) else main_loop (load_index w1) w1 rest)"
| "main_loop index w (Modify name_in opt_in in1 in2 request_uuid solicitud_now # rest) =
     (case modify_client index w name_in opt_in in1 in2 request_uuid solicitud_now of
        (out, index1, w1) \<Rightarrow>
          if exc_of out \<noteq> None then (exc_of out, w1) else main_loop index1 w1 rest)"
| "main_loop index w (Delete name_in confirm_in # rest) =
     (case delete_client index w name_in confirm_in of
        (out, index1, w1) \<Rightarrow>
          if exc_of out \<noteq> None then (exc_of out, w1) else main_loop (load_index w1) w1 rest)"

text \<open>
  A record file with a request in it: a JSON object whose \<open>solicitudes\<close> is a non-empty
  list. \<open>store_ok\<close> says so of every file under \<open>data/clients\<close>.
\<close>

definition has_requests :: "entry \<Rightarrow> bool" where
  "has_requests c \<longleftrightarrow>
     (case c of
        Parsed (JObj kvs) \<Rightarrow>
          (case dict_get kvs (ascii ''solicitudes'') of
             Some (JArr reqs) \<Rightarrow> reqs \<noteq> []
           | _ \<Rightarrow> False)
      | _ \<Rightarrow> False)"

definition store_ok :: "world \<Rightarrow> bool" where
  "store_ok w \<longleftrightarrow> (\<forall>fn c. clients w fn = Some c \<longrightarrow> has_requests c)"

section \<open>Concrete states\<close>

text \<open>The empty data directory, and the state after customer "Ana" has been created in it.\<close>

definition w_empty :: world where
  "w_empty = \<lparr>clients = Map.empty, index_file = None, queries_log = [], writes = []\<rparr>"

definition index_empty :: index where
  "index_empty = Map.empty"

definition ana_file :: str where
  "ana_file = ascii ''u1_ana.json''"

definition ana_request :: json where
  "ana_request = new_request (ascii ''u2'') (ascii ''TV'') (ascii ''alta'') (ascii ''t2'')"

definition ana_record :: json where
  "ana_record =
     new_client (ascii ''u1'') (ascii ''Ana'') (ascii ''Persona'') (ascii ''N/A'') (ascii ''t1'')
       ana_request"

definition ana_index :: index where
  "ana_index = index_empty(ascii ''ana'' \<mapsto> ana_file)"

definition ana_world :: world where
  "ana_world =
     \<lparr>clients = Map.empty(ana_file \<mapsto> Parsed ana_record),
      index_file = Some ana_index,
      queries_log = [],
      writes = [WriteRecord ana_file, WriteIndex]\<rparr>"

text \<open>
  The state after a customer named "!" has been created in the empty directory: the key is
  the empty string.
\<close>

definition bang_file :: str where
  "bang_file = ascii ''u1_.json''"

definition bang_index :: index where
  "bang_index = index_empty([] \<mapsto> bang_file)"

definition bang_world :: world where
  "bang_world =
     \<lparr>clients = Map.empty(bang_file \<mapsto>
        Parsed (new_client (ascii ''u1'') (ascii ''!'') (ascii ''Persona'') (ascii ''N/A'')
                  (ascii ''t1'') ana_request)),
      index_file = Some bang_index,
      queries_log = [],
      writes = [WriteRecord bang_file, WriteIndex]\<rparr>"

text \<open>A stale index: the key is there, the file is not.\<close>

definition stale_world :: world where
  "stale_world = \<lparr>clients = Map.empty, index_file = Some ana_index, queries_log = [], writes = []\<rparr>"

section \<open>Strings, lookups and the operations unfolded\<close>

lemma require_non_empty_eq: "require_non_empty s = strip s"
  by (simp add: require_non_empty_def Let_def)

lemma rstrip_prefix: "rev (dropWhile P (rev xs)) @ rev (takeWhile P (rev xs)) = xs"
proof -
  have "rev (takeWhile P (rev xs) @ dropWhile P (rev xs)) = xs"
    by (simp only: takeWhile_dropWhile_id rev_rev_ident)
  then show ?thesis unfolding rev_append .
qed

lemma rstrip_head:
  assumes "rev (dropWhile P (rev xs)) \<noteq> []"
  shows "hd (rev (dropWhile P (rev xs))) = hd xs"
proof -
  have "hd (rev (dropWhile P (rev xs)) @ rev (takeWhile P (rev xs))) = hd (rev (dropWhile P (rev xs)))"
    using assms by (rule hd_append2)
  then show ?thesis by (simp only: rstrip_prefix)
qed

lemma strip_head: "strip s \<noteq> [] \<Longrightarrow> \<not> isspace (hd (strip s))"
proof -
  assume ne: "strip s \<noteq> []"
  have "hd (strip s) = hd (dropWhile isspace s)"
    using ne unfolding strip_def by (rule rstrip_head)
  moreover have "dropWhile isspace s \<noteq> []"
    using ne unfolding strip_def by (metis dropWhile.simps(1) rev.simps(1))
  ultimately show ?thesis by (simp add: hd_dropWhile)
qed

lemma strip_last: "strip s \<noteq> [] \<Longrightarrow> \<not> isspace (last (strip s))"
  unfolding strip_def
  by (metis (no_types) hd_dropWhile last_rev rev_is_Nil_conv)

lemma strip_fixed:
  assumes "s = [] \<or> (\<not> isspace (hd s) \<and> \<not> isspace (last s))"
  shows "strip s = s"
proof (cases "s = []")
  case True
  then show ?thesis by (simp add: strip_def)
next
  case False
  with assms have h: "\<not> isspace (hd s)" and l: "\<not> isspace (last s)" by auto
  have 1: "dropWhile isspace s = s"
    using h by (simp add: dropWhile_eq_self_iff)
  have "hd (rev s) = last s" using False by (simp add: hd_rev)
  then have 2: "dropWhile isspace (rev s) = rev s"
    using l by (simp add: dropWhile_eq_self_iff)
  show ?thesis by (simp add: strip_def 1 2)
qed

lemma strip_strip: "strip (strip s) = strip s"
  using strip_fixed[of "strip s"] strip_head strip_last by blast

lemma normalize_strip: "normalize_name (strip s) = normalize_name s"
  by (simp add: normalize_name_def strip_strip)

lemma find_client_file_Some:
  "find_client_file index w name = Some fn \<longleftrightarrow>
     index (normalize_name name) = Some fn \<and> fn \<noteq> [] \<and> clients w fn \<noteq> None"
  by (auto simp: find_client_file_def Let_def split: option.splits)

lemma find_client_file_None:
  "find_client_file index w name = None \<longleftrightarrow>
     (\<forall>fn. index (normalize_name name) = Some fn \<longrightarrow> fn = [] \<or> clients w fn = None)"
  by (auto simp: find_client_file_def Let_def split: option.splits)

lemma find_client_file_strip:
  "find_client_file index w (strip name) = find_client_file index w name"
  by (simp add: find_client_file_def normalize_strip)

lemma find_client_file_key:
  "normalize_name a = normalize_name b \<Longrightarrow> find_client_file index w a = find_client_file index w b"
  by (simp add: find_client_file_def)

lemma dict_get_dict_set:
  "dict_get (dict_set d k v) k' = (if k' = k then Some v else dict_get d k')"
  by (induction d) (auto simp: dict_get_def)

lemma keys_dict_set:
  "k \<in> fst ` set d \<Longrightarrow> map fst (dict_set d k v) = map fst d"
  by (induction d) force+

lemma write_record_None:
  "write_record w path cliente = (None, w1) \<longleftrightarrow>
     clients w path \<noteq> Some Directory \<and> json_encodable cliente
       \<and> w1 = record_written w path cliente"
  by (auto simp: write_record_def)

lemma write_record_Some:
  "write_record w path cliente = (Some e, w1) \<longleftrightarrow>
     (clients w path = Some Directory \<and> e = IsADirectoryError \<and> w1 = w)
     \<or> (clients w path \<noteq> Some Directory \<and> \<not> json_encodable cliente
          \<and> e = UnicodeEncodeError \<and> w1 = record_truncated w path)"
  by (auto simp: write_record_def)

lemma str_encodable_append:
  "str_encodable (a @ b) \<longleftrightarrow> str_encodable a \<and> str_encodable b"
  by (simp add: str_encodable_def)

lemma of_char_small: "of_char c < (256::nat)" for c :: char
  by (metis of_char_mod_256 mod_less_divisor zero_less_numeral)

lemma str_encodable_ascii: "str_encodable (ascii s)"
proof -
  have "\<not> (55296 \<le> (of_char c :: nat))" for c :: char
    using of_char_small [of c] by linarith
  then show ?thesis
    by (simp add: str_encodable_def ascii_def list_all_iff)
qed

lemma json_encodable_new_request:
  "json_encodable (new_request ru servicio descripcion sn) \<longleftrightarrow>
     str_encodable ru \<and> str_encodable servicio \<and> str_encodable descripcion \<and> str_encodable sn"
  by (simp add: new_request_def str_encodable_ascii)

lemma json_encodable_new_client:
  "json_encodable (new_client cu name tipo contacto an r) \<longleftrightarrow>
     str_encodable cu \<and> str_encodable name \<and> str_encodable tipo \<and> str_encodable contacto
       \<and> str_encodable an \<and> json_encodable r"
  by (simp add: new_client_def str_encodable_ascii)

lemma json_encodable_dict_set:
  "json_encodable (JObj kvs) \<Longrightarrow> str_encodable k \<Longrightarrow> json_encodable v \<Longrightarrow>
     json_encodable (JObj (dict_set kvs k v))"
  by (induction kvs) auto

lemma dict_get_encodable:
  "json_encodable (JObj kvs) \<Longrightarrow> dict_get kvs k = Some v \<Longrightarrow> json_encodable v"
  by (induction kvs) (auto simp: dict_get_def split: if_splits)

lemma delete_client_unfold:
  "delete_client index w name_in confirm_in =
     (if strip name_in = [] then (EmptyInput, index, w)
      else case find_client_file index w name_in of
        None \<Rightarrow> (NotFound, index, w)
      | Some path \<Rightarrow>
          if lower (strip confirm_in) \<noteq> ascii ''si'' then (Cancelled, index, w)
          else if clients w path = Some Directory then (Raised IsADirectoryError, index, w)
          else (Done, index(normalize_name name_in := None),
                save_index (w\<lparr>clients := (clients w)(path := None),
                              writes := writes w @ [RemoveRecord path]\<rparr>)
                  (index(normalize_name name_in := None))))"
proof (cases "find_client_file index w name_in")
  case None
  then show ?thesis
    by (simp add: delete_client_def require_non_empty_eq Let_def find_client_file_strip)
next
  case (Some path)
  then have "index (normalize_name name_in) = Some path" and "clients w path \<noteq> None"
    by (simp_all add: find_client_file_Some)
  with Some show ?thesis
    by (auto simp: delete_client_def require_non_empty_eq Let_def find_client_file_strip
          normalize_strip os_remove_def split: entry.splits)
qed

lemma consult_client_unfold:
  "consult_client index w name_in t =
     (if strip name_in = [] then (EmptyInput, index, w)
      else case find_client_file index w name_in of
        None \<Rightarrow> (NotFound, index, w)
      | Some path \<Rightarrow>
          (case read_record w path of
             Inl e \<Rightarrow> (Raised e, index, w)
           | Inr cliente \<Rightarrow>
               if str_encodable (t @ ascii '' | CONSULTA | '' @ strip name_in)
               then (Done, index,
                     w\<lparr>queries_log := queries_log w @ [t @ ascii '' | CONSULTA | '' @ strip name_in],
                       writes := writes w @ [AppendLog]\<rparr>)
               else (Raised UnicodeEncodeError, index, w)))"
  unfolding consult_client_def Let_def require_non_empty_eq find_client_file_strip
  by (rule refl)

lemma modify_client_unfold:
  "modify_client index w name_in opt_in in1 in2 ru sn =
     (if strip name_in = [] then (EmptyInput, index, w)
      else case find_client_file index w name_in of
        None \<Rightarrow> (NotFound, index, w)
      | Some path \<Rightarrow>
          (case read_record w path of
             Inl e \<Rightarrow> (Raised e, index, w)
           | Inr cliente \<Rightarrow>
               if strip opt_in = ascii ''1'' then
                 (if strip in1 = [] then (EmptyInput, index, w)
                  else case set_item cliente (ascii ''contacto'') (JStr (strip in1)) of
                    Inl e \<Rightarrow> (Raised e, index, w)
                  | Inr cliente1 \<Rightarrow>
                      (case write_record w path cliente1 of
                         (Some e, w1) \<Rightarrow> (Raised e, index, w1)
                       | (None, w1) \<Rightarrow> (Done, index, w1)))
               else if strip opt_in = ascii ''2'' then
                 (if strip in1 = [] then (EmptyInput, index, w)
                  else if strip in2 = [] then (EmptyInput, index, w)
                  else case append_item cliente (ascii ''solicitudes'')
                              (new_request ru (strip in1) (strip in2) sn) of
                    Inl e \<Rightarrow> (Raised e, index, w)
                  | Inr cliente1 \<Rightarrow>
                      (case write_record w path cliente1 of
                         (Some e, w1) \<Rightarrow> (Raised e, index, w1)
                       | (None, w1) \<Rightarrow> (Done, index, w1)))
               else (InvalidSelector, index, w)))"
  unfolding modify_client_def Let_def require_non_empty_eq find_client_file_strip
  by (rule refl)

lemma create_client_unfold:
  "create_client index w name_in tipo_in contacto_in servicio_in descripcion_in cu an ru sn =
     (if strip name_in = [] then (EmptyInput, index, w)
      else if normalize_name name_in \<in> dom index then (Conflict, index, w)
      else if strip servicio_in = [] then (EmptyInput, index, w)
      else if strip descripcion_in = [] then (EmptyInput, index, w)
      else case write_record w (client_filename cu (strip name_in))
                  (new_client cu (strip name_in)
                     (if strip tipo_in = [] then ascii ''Persona'' else strip tipo_in)
                     (if strip contacto_in = [] then ascii ''N/A'' else strip contacto_in) an
                     (new_request ru (strip servicio_in) (strip descripcion_in) sn)) of
             (Some e, w1) \<Rightarrow> (Raised e, index, w1)
           | (None, w1) \<Rightarrow>
               (Done, index(normalize_name name_in \<mapsto> client_filename cu (strip name_in)),
                save_index w1
                  (index(normalize_name name_in \<mapsto> client_filename cu (strip name_in)))))"
  unfolding create_client_def Let_def require_non_empty_eq normalize_strip
  by (rule refl)

lemmas str_eval = ascii_def strip_def lower_def lower_cp_def sub_class_def key_char_def isspace_def

lemma normalize_Ana: "normalize_name (ascii ''Ana'') = ascii ''ana''"
  by (simp add: normalize_name_def str_eval)

lemma normalize_ana: "normalize_name (ascii ''ana'') = ascii ''ana''"
  by (simp add: normalize_name_def str_eval)

lemma normalize_bang: "normalize_name (ascii ''!'') = []"
  by (simp add: normalize_name_def str_eval)

lemma normalize_blank: "normalize_name (ascii '' '') = []"
  by (simp add: normalize_name_def str_eval)

lemma strip_Ana: "strip (ascii ''Ana'') = ascii ''Ana''"
  by (simp add: str_eval)

lemma strip_ana: "strip (ascii ''ana'') = ascii ''ana''"
  by (simp add: str_eval)

lemma strip_bang: "strip (ascii ''!'') = ascii ''!''"
  by (simp add: str_eval)

lemma strip_blank: "strip (ascii '' '') = []"
  by (simp add: str_eval)

lemma strip_TV: "strip (ascii ''TV'') = ascii ''TV''"
  by (simp add: str_eval)

lemma strip_alta: "strip (ascii ''alta'') = ascii ''alta''"
  by (simp add: str_eval)

lemma strip_Nil: "strip [] = []"
  by (simp add: strip_def)

lemma slugify_Ana: "slugify (ascii ''Ana'') = ascii ''ana''"
  by (simp add: slugify_def normalize_Ana) (simp add: ascii_def)

lemma slugify_bang: "slugify (ascii ''!'') = []"
  by (simp add: slugify_def normalize_bang)

lemma ana_index_ana: "ana_index (ascii ''ana'') = Some ana_file"
  by (simp add: ana_index_def)

lemma ana_file_exists: "clients ana_world ana_file = Some (Parsed ana_record)"
  by (simp add: ana_world_def)

lemma ana_file_nonempty: "ana_file \<noteq> []"
  by (simp add: ana_file_def ascii_def)

lemma create_Ana:
  "create_client index_empty w_empty (ascii ''Ana'') [] [] (ascii ''TV'') (ascii ''alta'')
     (ascii ''u1'') (ascii ''t1'') (ascii ''u2'') (ascii ''t2'') = (Done, ana_index, ana_world)"
  by (simp add: create_client_unfold strip_Ana normalize_Ana strip_TV strip_alta strip_Nil
        slugify_Ana client_filename_def write_record_def record_written_def save_index_def
        w_empty_def index_empty_def ana_index_def ana_world_def ana_file_def ana_record_def
        ana_request_def json_encodable_new_client json_encodable_new_request str_encodable_ascii)
     (simp add: ascii_def)

lemma stale_index_ana: "clients stale_world ana_file = None"
  by (simp add: stale_world_def)

lemma index_empty_none: "index_empty k = None"
  by (simp add: index_empty_def)

lemma lower_strip_no: "lower (strip (ascii ''no'')) = ascii ''no''"
  by (simp add: str_eval)

lemma lower_strip_SI: "lower (strip (ascii '' SI '')) = ascii ''si''"
  by (simp add: str_eval)

lemma no_is_not_si: "ascii ''no'' \<noteq> ascii ''si''"
  by (simp add: ascii_def)

lemma contacto_not_solicitudes: "ascii ''contacto'' \<noteq> ascii ''solicitudes''"
  by (simp add: ascii_def)

lemma set_item_JObj: "set_item (JObj kvs) k v = Inr (JObj (dict_set kvs k v))"
  by (simp add: set_item_def)

lemma set_item_Inr:
  "set_item cliente k v = Inr cliente1 \<longleftrightarrow>
     (\<exists>kvs. cliente = JObj kvs \<and> cliente1 = JObj (dict_set kvs k v))"
  by (cases cliente) (auto simp: set_item_def)

lemma append_item_Inr:
  "append_item cliente k r = Inr cliente1 \<longleftrightarrow>
     (\<exists>kvs xs. cliente = JObj kvs \<and> dict_get kvs k = Some (JArr xs)
        \<and> cliente1 = JObj (dict_set kvs k (JArr (xs @ [r]))))"
  by (cases cliente) (auto simp: append_item_def split: option.splits json.splits)

lemma read_record_Inr:
  "read_record w path = Inr cliente \<longleftrightarrow> clients w path = Some (Parsed cliente)"
  by (auto simp: read_record_def split: option.splits entry.splits)

text \<open>What a call of \<open>modify_client\<close> that ends normally has done.\<close>

lemma modify_client_Done:
  assumes "modify_client index w name_in opt_in in1 in2 ru sn = (Done, index1, w1)"
  shows "\<exists>path kvs.
           strip name_in \<noteq> []
         \<and> find_client_file index w name_in = Some path
         \<and> clients w path = Some (Parsed (JObj kvs))
         \<and> index1 = index
         \<and> ((strip opt_in = ascii ''1'' \<and> strip in1 \<noteq> []
              \<and> w1 = record_written w path
                      (JObj (dict_set kvs (ascii ''contacto'') (JStr (strip in1)))))
            \<or> (strip opt_in = ascii ''2'' \<and> strip in1 \<noteq> [] \<and> strip in2 \<noteq> []
              \<and> (\<exists>xs. dict_get kvs (ascii ''solicitudes'') = Some (JArr xs)
                   \<and> w1 = record_written w path
                      (JObj (dict_set kvs (ascii ''solicitudes'')
                         (JArr (xs @ [new_request ru (strip in1) (strip in2) sn])))))))"
  using assms
  by (auto simp: modify_client_unfold set_item_Inr append_item_Inr read_record_Inr
        write_record_None split: if_splits option.splits sum.splits prod.splits)

lemma modify_client_index:
  assumes "modify_client index w name_in opt_in in1 in2 ru sn = (out, index1, w1)"
  shows "index1 = index"
  using assms
  by (auto simp: modify_client_unfold split: if_splits option.splits sum.splits prod.splits)

text \<open>
  A call of \<open>modify_client\<close> that ends otherwise has changed nothing, unless the dump of
  the record raised.
\<close>

lemma modify_client_unchanged:
  assumes "modify_client index w name_in opt_in in1 in2 ru sn = (out, index1, w1)"
      and "out \<noteq> Done"
      and "out \<noteq> Raised UnicodeEncodeError"
  shows "w1 = w"
  using assms
  by (auto simp: modify_client_unfold write_record_Some
        split: if_splits option.splits sum.splits prod.splits)

lemma one_not_two: "ascii ''1'' \<noteq> ascii ''2''"
  by (simp add: ascii_def)

lemma strip_two: "strip (ascii ''2'') = ascii ''2''"
  by (simp add: str_eval)

lemma strip_one: "strip (ascii ''1'') = ascii ''1''"
  by (simp add: str_eval)

lemma dict_set_nth:
  "i < length d \<Longrightarrow> fst (d ! i) \<noteq> k \<Longrightarrow> dict_set d k v ! i = d ! i"
proof (induction d arbitrary: i)
  case Nil
  then show ?case by simp
next
  case (Cons a d)
  then show ?case by (cases i; cases a) auto
qed

lemma length_dict_set:
  "k \<in> fst ` set d \<Longrightarrow> length (dict_set d k v) = length d"
  using keys_dict_set [of k d v] by (metis length_map)

lemma strip_555: "strip (ascii ''555'') = ascii ''555''"
  by (simp add: str_eval)

lemma find_Ana: "find_client_file ana_index ana_world (ascii ''Ana'') = Some ana_file"
  by (simp add: find_client_file_Some normalize_Ana ana_index_ana ana_file_nonempty ana_file_exists)

lemma modify_Ana_contact:
  "modify_client ana_index ana_world (ascii ''Ana'') (ascii ''1'') (ascii ''555'') []
     (ascii ''u5'') (ascii ''t5'')
   = (Done, ana_index,
      record_written ana_world ana_file
        (new_client (ascii ''u1'') (ascii ''Ana'') (ascii ''Persona'') (ascii ''555'')
           (ascii ''t1'') ana_request))"
proof -
  let ?new = "new_client (ascii ''u1'') (ascii ''Ana'') (ascii ''Persona'') (ascii ''555'')
                (ascii ''t1'') ana_request"
  have enc: "json_encodable ?new"
    by (simp add: json_encodable_new_client ana_request_def json_encodable_new_request
          str_encodable_ascii)
  have upd: "set_item ana_record (ascii ''contacto'') (JStr (ascii ''555'')) = Inr ?new"
    by (simp add: ana_record_def new_client_def set_item_def) (simp add: ascii_def)
  have wr: "write_record ana_world ana_file ?new = (None, record_written ana_world ana_file ?new)"
    by (simp add: write_record_def enc ana_file_exists)
  show ?thesis
    by (simp add: modify_client_unfold strip_Ana find_Ana read_record_def ana_file_exists
          strip_one strip_555 upd wr)
       (simp add: ascii_def)
qed

lemma ana_record_kvs:
  "ana_record = JObj [(ascii ''customer_id'', JStr (ascii ''u1'')),
           (ascii ''nombre'', JStr (ascii ''Ana'')),
           (ascii ''tipo_cliente'', JStr (ascii ''Persona'')),
           (ascii ''contacto'', JStr (ascii ''N/A'')),
           (ascii ''fecha_alta'', JStr (ascii ''t1'')),
           (ascii ''solicitudes'', JArr [ana_request])]"
  by (simp add: ana_record_def new_client_def)

lemma new_client_requests:
  "new_client cu name tipo contacto an r = JObj kvs \<Longrightarrow>
     dict_get kvs (ascii ''solicitudes'') = Some (JArr [r])"
  by (auto simp: new_client_def dict_get_def ascii_def)

lemma new_client_has_requests: "has_requests (Parsed (new_client cu name tipo contacto an r))"
  by (simp add: has_requests_def new_client_def dict_get_def ascii_def)

section \<open>Creating a customer whose key is taken\<close>

text \<open>
  C1, as stated, at the pair of names "!" and " ": both normalize to the empty key, the
  first is a customer created in the empty directory, and \<open>create_client\<close> with the
  second ends at the check of \<open>require_non_empty\<close>, before the index is looked at.
\<close>

theorem create_blank_name_counterexample:
  "create_client index_empty w_empty (ascii ''!'') [] [] (ascii ''TV'') (ascii ''alta'')
     (ascii ''u1'') (ascii ''t1'') (ascii ''u2'') (ascii ''t2'') = (Done, bang_index, bang_world)
   \<and> normalize_name (ascii ''!'') = normalize_name (ascii '' '')
   \<and> bang_index (normalize_name (ascii ''!'')) = Some bang_file
   \<and> create_client bang_index bang_world (ascii '' '') [] [] (ascii ''TV'') (ascii ''alta'')
        (ascii ''u3'') (ascii ''t3'') (ascii ''u4'') (ascii ''t4'')
      = (EmptyInput, bang_index, bang_world)
   \<and> EmptyInput \<noteq> Conflict"
  by (simp add: create_client_unfold strip_bang normalize_bang normalize_blank strip_blank
        strip_TV strip_alta strip_Nil
        slugify_bang client_filename_def write_record_def record_written_def save_index_def
        w_empty_def index_empty_def bang_index_def bang_world_def bang_file_def ana_request_def
        json_encodable_new_client json_encodable_new_request str_encodable_ascii)
     (simp add: ascii_def)

text \<open>
  C1, amended: for every index, every persisted state and every pair of raw names with the
  same normalized key, when the first key is in the index, \<open>create_client\<close> with the
  second name returns before any write, the index dictionary and the persisted state
  (record files, index file, log, trace of writes) being what they were. It reports
  \<open>Conflict\<close> when the second name is not empty after trimming and \<open>EmptyInput\<close> when
  it is.
\<close>

theorem create_duplicate_rejected:
  assumes "normalize_name name1 = normalize_name name2"
      and "index (normalize_name name1) = Some fn"
  shows "create_client index w name2 tipo_in contacto_in servicio_in descripcion_in cu an ru sn
           = (if strip name2 = [] then EmptyInput else Conflict, index, w)"
  using assms by (simp add: create_client_unfold dom_def)

theorem create_duplicate_rejected_witness:
  "create_client ana_index ana_world (ascii ''ana'') [] [] (ascii ''TV'') (ascii ''alta'')
     (ascii ''u3'') (ascii ''t3'') (ascii ''u4'') (ascii ''t4'') = (Conflict, ana_index, ana_world)"
  using create_duplicate_rejected [of "ascii ''Ana''" "ascii ''ana''" ana_index ana_file ana_world
          "[]" "[]" "ascii ''TV''" "ascii ''alta''" "ascii ''u3''" "ascii ''t3''" "ascii ''u4''" "ascii ''t4''"]
  by (simp add: normalize_Ana normalize_ana ana_index_ana strip_ana) (simp add: ascii_def)

section \<open>Names that do not resolve\<close>

text \<open>
  C5, as stated, at the raw name " " and the empty index: its key is not in the index, and
  \<open>consult_client\<close>, \<open>modify_client\<close> and \<open>delete_client\<close> end at the check of
  \<open>require_non_empty\<close> with \<open>EmptyInput\<close>, not with \<open>NotFound\<close>.
\<close>

theorem blank_name_not_found_counterexample:
  "index_empty (normalize_name (ascii '' '')) = None
   \<and> consult_client index_empty w_empty (ascii '' '') (ascii ''t1'') = (EmptyInput, index_empty, w_empty)
   \<and> modify_client index_empty w_empty (ascii '' '') (ascii ''1'') (ascii ''x'') [] (ascii ''u1'') (ascii ''t1'')
       = (EmptyInput, index_empty, w_empty)
   \<and> delete_client index_empty w_empty (ascii '' '') (ascii ''si'') = (EmptyInput, index_empty, w_empty)
   \<and> EmptyInput \<noteq> NotFound"
  by (simp add: index_empty_none consult_client_unfold modify_client_unfold delete_client_unfold
        strip_blank)

text \<open>
  C5, amended: for every index, every persisted state and every raw name, if the name's
  normalized key is absent from the index, or is present but no record file exists under
  the mapped file name, then \<open>find_client_file\<close> returns \<open>None\<close> as an ordinary result;
  \<open>consult_client\<close>, \<open>modify_client\<close> and \<open>delete_client\<close> raise nothing and leave the
  index and the persisted state as they were; they report \<open>NotFound\<close> when the raw name
  is not empty after trimming, and \<open>EmptyInput\<close> when it is.
\<close>

theorem missing_or_stale_not_found:
  assumes "index (normalize_name name_in) = None
           \<or> (\<exists>fn. index (normalize_name name_in) = Some fn \<and> clients w fn = None)"
  shows "find_client_file index w name_in = None
     \<and> consult_client index w name_in log_now
         = (if strip name_in = [] then EmptyInput else NotFound, index, w)
     \<and> modify_client index w name_in opt_in in1 in2 ru sn
         = (if strip name_in = [] then EmptyInput else NotFound, index, w)
     \<and> delete_client index w name_in confirm_in
         = (if strip name_in = [] then EmptyInput else NotFound, index, w)"
proof -
  from assms have none: "find_client_file index w name_in = None"
    by (auto simp: find_client_file_None)
  then show ?thesis
    by (simp add: consult_client_unfold modify_client_unfold delete_client_unfold)
qed

theorem missing_or_stale_not_found_witness:
  "find_client_file ana_index stale_world (ascii ''Ana'') = None
   \<and> consult_client ana_index stale_world (ascii ''Ana'') (ascii ''t1'') = (NotFound, ana_index, stale_world)
   \<and> modify_client ana_index stale_world (ascii ''Ana'') (ascii ''1'') (ascii ''x'') [] (ascii ''u1'') (ascii ''t1'')
       = (NotFound, ana_index, stale_world)
   \<and> delete_client ana_index stale_world (ascii ''Ana'') (ascii ''si'') = (NotFound, ana_index, stale_world)
   \<and> find_client_file index_empty w_empty (ascii ''Ana'') = None
   \<and> consult_client index_empty w_empty (ascii ''Ana'') (ascii ''t1'') = (NotFound, index_empty, w_empty)"
  using missing_or_stale_not_found [of ana_index "ascii ''Ana''" stale_world "ascii ''t1''"
          "ascii ''1''" "ascii ''x''" "[]" "ascii ''u1''" "ascii ''t1''" "ascii ''si''"]
        missing_or_stale_not_found [of index_empty "ascii ''Ana''" w_empty "ascii ''t1''"
          "ascii ''1''" "ascii ''x''" "[]" "ascii ''u1''" "ascii ''t1''" "ascii ''si''"]
  by (simp add: normalize_Ana ana_index_ana stale_index_ana index_empty_none strip_Ana)
     (simp add: ascii_def)

section \<open>Deleting a customer\<close>

text \<open>
  C6: for every customer in the index whose record file exists, named by a raw name that
  is not empty after trimming, \<open>delete_client\<close> with a confirmation that does not lower
  to \<open>si\<close> returns \<open>Cancelled\<close> and the index dictionary and the whole persisted state
  are unchanged: the record file and its content, the index file, and the trace of writes
  (so the index file is not rewritten).
\<close>

theorem delete_unconfirmed_cancelled:
  assumes "strip name_in \<noteq> []"
      and "index (normalize_name name_in) = Some fn"
      and "fn \<noteq> []"
      and "clients w fn = Some content"
      and "lower (strip confirm_in) \<noteq> ascii ''si''"
  shows "delete_client index w name_in confirm_in = (Cancelled, index, w)"
proof -
  have "find_client_file index w name_in = Some fn"
    using assms by (simp add: find_client_file_Some)
  then show ?thesis
    using assms by (simp add: delete_client_unfold)
qed

theorem delete_unconfirmed_cancelled_witness:
  "delete_client ana_index ana_world (ascii ''Ana'') (ascii ''no'') = (Cancelled, ana_index, ana_world)"
  using delete_unconfirmed_cancelled [of "ascii ''Ana''" ana_index ana_file ana_world
          "Parsed ana_record" "ascii ''no''"]
  by (simp add: strip_Ana normalize_Ana ana_index_ana ana_file_nonempty ana_file_exists
        lower_strip_no no_is_not_si)
     (simp add: ascii_def)

text \<open>
  C9: for every customer that resolves to a record file and every confirmation answer,
  \<open>delete_client\<close> ends normally, with the record file removed, exactly when the answer
  trimmed and
  lowered is the two-character string \<open>si\<close>; with any other answer it returns
  \<open>Cancelled\<close> and changes nothing. The answers "si" with an accented i (U+00ED), "yes" and
  "s" are among the others.
\<close>

theorem delete_confirmation_exact:
  assumes "strip name_in \<noteq> []"
      and "index (normalize_name name_in) = Some fn"
      and "fn \<noteq> []"
      and "clients w fn = Some content"
      and "content \<noteq> Directory"
  shows "(fst (delete_client index w name_in confirm_in) = Done
            \<longleftrightarrow> lower (strip confirm_in) = ascii ''si'')
     \<and> (lower (strip confirm_in) = ascii ''si''
            \<longrightarrow> clients (snd (snd (delete_client index w name_in confirm_in))) fn = None)
     \<and> (lower (strip confirm_in) \<noteq> ascii ''si''
            \<longrightarrow> delete_client index w name_in confirm_in = (Cancelled, index, w))
     \<and> lower (strip [115, 237]) \<noteq> ascii ''si''
     \<and> lower (strip (ascii ''yes'')) \<noteq> ascii ''si''
     \<and> lower (strip (ascii ''s'')) \<noteq> ascii ''si''"
proof -
  have found: "find_client_file index w name_in = Some fn"
    using assms by (simp add: find_client_file_Some)
  have ex: "lower (strip [115, 237]) \<noteq> ascii ''si''"
        "lower (strip (ascii ''yes'')) \<noteq> ascii ''si''"
        "lower (strip (ascii ''s'')) \<noteq> ascii ''si''"
    by (simp_all add: str_eval)
  show ?thesis
    using assms(1,4,5) found ex by (simp add: delete_client_unfold save_index_def)
qed

theorem delete_confirmation_exact_witness:
  "fst (delete_client ana_index ana_world (ascii ''Ana'') (ascii '' SI '')) = Done
   \<and> clients (snd (snd (delete_client ana_index ana_world (ascii ''Ana'') (ascii '' SI '')))) ana_file = None
   \<and> delete_client ana_index ana_world (ascii ''Ana'') (ascii ''no'') = (Cancelled, ana_index, ana_world)"
  using delete_confirmation_exact [of "ascii ''Ana''" ana_index ana_file ana_world
          "Parsed ana_record" "ascii '' SI ''"]
        delete_confirmation_exact [of "ascii ''Ana''" ana_index ana_file ana_world
          "Parsed ana_record" "ascii ''no''"]
  by (simp add: strip_Ana normalize_Ana ana_index_ana ana_file_nonempty ana_file_exists
        lower_strip_no lower_strip_SI no_is_not_si)
     (simp add: ascii_def)

text \<open>
  C2: for every index holding a customer whose record file exists, after a confirmed
  \<open>delete_client\<close> of that customer, \<open>find_client_file\<close> returns \<open>None\<close> for every raw
  name with the customer's key, with the index dictionary the call leaves and with the
  index reloaded from disk, and reading the former file name fails with
  \<open>FileNotFoundError\<close>: the record file and the index entry are both gone.
\<close>

theorem delete_then_not_found:
  assumes "strip name_in \<noteq> []"
      and "index (normalize_name name_in) = Some fn"
      and "fn \<noteq> []"
      and "clients w fn = Some content"
      and "content \<noteq> Directory"
      and "lower (strip confirm_in) = ascii ''si''"
      and "normalize_name raw = normalize_name name_in"
  shows "\<exists>index1 w1.
           delete_client index w name_in confirm_in = (Done, index1, w1)
         \<and> find_client_file index1 w1 raw = None
         \<and> find_client_file (load_index w1) w1 raw = None
         \<and> read_record w1 fn = Inl FileNotFoundError
         \<and> clients w1 fn = None
         \<and> index1 (normalize_name name_in) = None
         \<and> index_file w1 = Some index1"
proof -
  have found: "find_client_file index w name_in = Some fn"
    using assms by (simp add: find_client_file_Some)
  show ?thesis
    using assms(1,4,5,6,7) found
    by (simp add: delete_client_unfold save_index_def load_index_def find_client_file_def
          read_record_def)
qed

theorem delete_then_not_found_witness:
  "\<exists>index1 w1.
     delete_client ana_index ana_world (ascii ''Ana'') (ascii '' SI '') = (Done, index1, w1)
   \<and> find_client_file index1 w1 (ascii ''ana'') = None
   \<and> find_client_file (load_index w1) w1 (ascii ''ana'') = None
   \<and> read_record w1 ana_file = Inl FileNotFoundError
   \<and> clients w1 ana_file = None
   \<and> index1 (ascii ''ana'') = None
   \<and> index_file w1 = Some index1"
  using delete_then_not_found [of "ascii ''Ana''" ana_index ana_file ana_world
          "Parsed ana_record" "ascii '' SI ''" "ascii ''ana''"]
  by (simp add: strip_Ana normalize_Ana normalize_ana ana_index_ana ana_file_nonempty
        ana_file_exists lower_strip_SI)
     (simp add: ascii_def)



section \<open>Modifying a customer\<close>

text \<open>
  C10: for every customer record that is a JSON object, a call of \<open>modify_client\<close> with
  option 1 that ends normally writes, to the file the name resolves to, the object it
  read with \<open>contacto\<close> set to the new value: every other key (\<open>customer_id\<close>,
  \<open>nombre\<close>, \<open>tipo_cliente\<close>, \<open>fecha_alta\<close>, \<open>solicitudes\<close>) has the value it had, every
  other entry keeps its position, no other file is touched, and the index, the index file
  and the log are unchanged. Values are compared as parsed JSON.
\<close>

theorem modify_contact_frame:
  assumes "modify_client index w name_in opt_in in1 in2 ru sn = (Done, index1, w1)"
      and "strip opt_in = ascii ''1''"
  shows "\<exists>path kvs kvs1.
           find_client_file index w name_in = Some path
         \<and> clients w path = Some (Parsed (JObj kvs))
         \<and> kvs1 = dict_set kvs (ascii ''contacto'') (JStr (strip in1))
         \<and> clients w1 = (clients w)(path \<mapsto> Parsed (JObj kvs1))
         \<and> dict_get kvs1 (ascii ''contacto'') = Some (JStr (strip in1))
         \<and> (\<forall>k. k \<noteq> ascii ''contacto'' \<longrightarrow> dict_get kvs1 k = dict_get kvs k)
         \<and> (\<forall>i. i < length kvs \<and> fst (kvs ! i) \<noteq> ascii ''contacto'' \<longrightarrow> kvs1 ! i = kvs ! i)
         \<and> (ascii ''contacto'' \<in> fst ` set kvs \<longrightarrow> map fst kvs1 = map fst kvs)
         \<and> index1 = index
         \<and> index_file w1 = index_file w
         \<and> queries_log w1 = queries_log w
         \<and> writes w1 = writes w @ [WriteRecord path]"
proof -
  from modify_client_Done [OF assms(1)] assms(2) one_not_two
  obtain path kvs where
    p: "find_client_file index w name_in = Some path"
       "clients w path = Some (Parsed (JObj kvs))"
       "index1 = index"
       "w1 = record_written w path (JObj (dict_set kvs (ascii ''contacto'') (JStr (strip in1))))"
    by auto
  show ?thesis
    using p by (simp add: record_written_def dict_get_dict_set dict_set_nth keys_dict_set)
qed

theorem modify_contact_frame_witness:
  "\<exists>path kvs kvs1.
     find_client_file ana_index ana_world (ascii ''Ana'') = Some path
   \<and> clients ana_world path = Some (Parsed (JObj kvs))
   \<and> kvs1 = dict_set kvs (ascii ''contacto'') (JStr (strip (ascii ''555'')))
   \<and> clients (record_written ana_world ana_file
        (new_client (ascii ''u1'') (ascii ''Ana'') (ascii ''Persona'') (ascii ''555'')
           (ascii ''t1'') ana_request)) = (clients ana_world)(path \<mapsto> Parsed (JObj kvs1))
   \<and> dict_get kvs1 (ascii ''contacto'') = Some (JStr (strip (ascii ''555'')))
   \<and> (\<forall>k. k \<noteq> ascii ''contacto'' \<longrightarrow> dict_get kvs1 k = dict_get kvs k)
   \<and> (\<forall>i. i < length kvs \<and> fst (kvs ! i) \<noteq> ascii ''contacto'' \<longrightarrow> kvs1 ! i = kvs ! i)
   \<and> (ascii ''contacto'' \<in> fst ` set kvs \<longrightarrow> map fst kvs1 = map fst kvs)
   \<and> ana_index = ana_index
   \<and> index_file (record_written ana_world ana_file
        (new_client (ascii ''u1'') (ascii ''Ana'') (ascii ''Persona'') (ascii ''555'')
           (ascii ''t1'') ana_request)) = index_file ana_world
   \<and> queries_log (record_written ana_world ana_file
        (new_client (ascii ''u1'') (ascii ''Ana'') (ascii ''Persona'') (ascii ''555'')
           (ascii ''t1'') ana_request)) = queries_log ana_world
   \<and> writes (record_written ana_world ana_file
        (new_client (ascii ''u1'') (ascii ''Ana'') (ascii ''Persona'') (ascii ''555'')
           (ascii ''t1'') ana_request)) = writes ana_world @ [WriteRecord path]"
  by (rule modify_contact_frame [OF modify_Ana_contact strip_one])

lemma run_appends_step:
  assumes "run_appends index w ((n, s, d, u, t) # rest) = (Done, w2)"
  shows "\<exists>w1. modify_client index w n (ascii ''2'') s d u t = (Done, index, w1)
              \<and> run_appends index w1 rest = (Done, w2)"
proof -
  obtain out index1 w1 where m: "modify_client index w n (ascii ''2'') s d u t = (out, index1, w1)"
    by (cases "modify_client index w n (ascii ''2'') s d u t") auto
  have "out = Done"
    using assms m by (auto split: if_splits)
  moreover from this m have "index1 = index"
    using modify_client_Done by blast
  ultimately show ?thesis using assms m by simp
qed

lemma append_Done:
  assumes "modify_client index w n (ascii ''2'') s d u t = (Done, index, w1)"
      and "index (normalize_name n) = Some fn"
      and "clients w fn = Some (Parsed (JObj kvs))"
      and "dict_get kvs (ascii ''solicitudes'') = Some (JArr reqs)"
  shows "w1 = record_written w fn
           (JObj (dict_set kvs (ascii ''solicitudes'') (JArr (reqs @ [request_of (n, s, d, u, t)]))))"
proof -
  from modify_client_Done [OF assms(1)] one_not_two
  obtain path kvs0 xs where
    p: "find_client_file index w n = Some path"
       "clients w path = Some (Parsed (JObj kvs0))"
       "dict_get kvs0 (ascii ''solicitudes'') = Some (JArr xs)"
       "w1 = record_written w path
               (JObj (dict_set kvs0 (ascii ''solicitudes'')
                  (JArr (xs @ [new_request u (strip s) (strip d) t]))))"
    by (auto simp: strip_two)
  from p(1) assms(2) have "path = fn" by (simp add: find_client_file_Some)
  with p assms(3,4) show ?thesis by (simp add: require_non_empty_eq)
qed

text \<open>
  C4: for every customer record whose \<open>solicitudes\<close> is a list, and every number of calls
  of \<open>modify_client\<close> with option 2 on that customer that all end normally, the
  \<open>solicitudes\<close> of the record on disk is the original list, unchanged and in order,
  followed by the new requests in the order they were submitted; every other key of the
  record has the value it had.
\<close>

theorem appends_extend_requests:
  assumes "run_appends index w rs = (Done, w1)"
      and "\<forall>r \<in> set rs. normalize_name (fst r) = key"
      and "index key = Some fn"
      and "clients w fn = Some (Parsed (JObj kvs))"
      and "dict_get kvs (ascii ''solicitudes'') = Some (JArr reqs)"
  shows "\<exists>kvs1. clients w1 fn = Some (Parsed (JObj kvs1))
           \<and> dict_get kvs1 (ascii ''solicitudes'') = Some (JArr (reqs @ map request_of rs))
           \<and> (\<forall>k. k \<noteq> ascii ''solicitudes'' \<longrightarrow> dict_get kvs1 k = dict_get kvs k)"
  using assms
proof (induction rs arbitrary: w kvs reqs)
  case Nil
  then show ?case by simp
next
  case (Cons r rs)
  obtain n s d u t where r: "r = (n, s, d, u, t)" by (cases r) auto
  from Cons.prems(1) r obtain w' where
    m: "modify_client index w n (ascii ''2'') s d u t = (Done, index, w')"
    and rest: "run_appends index w' rs = (Done, w1)"
    using run_appends_step by blast
  from Cons.prems(2) r have key: "index (normalize_name n) = Some fn"
    using Cons.prems(3) by simp
  let ?kvs' = "dict_set kvs (ascii ''solicitudes'') (JArr (reqs @ [request_of r]))"
  have w': "w' = record_written w fn (JObj ?kvs')"
    using append_Done [OF m key Cons.prems(4,5)] r by simp
  have 1: "clients w' fn = Some (Parsed (JObj ?kvs'))"
    by (simp add: w' record_written_def)
  have 2: "dict_get ?kvs' (ascii ''solicitudes'') = Some (JArr (reqs @ [request_of r]))"
    by (simp add: dict_get_dict_set)
  have 3: "\<forall>r \<in> set rs. normalize_name (fst r) = key"
    using Cons.prems(2) by simp
  from Cons.IH [OF rest 3 Cons.prems(3) 1 2]
  obtain kvs1 where
    k: "clients w1 fn = Some (Parsed (JObj kvs1))"
       "dict_get kvs1 (ascii ''solicitudes'') = Some (JArr ((reqs @ [request_of r]) @ map request_of rs))"
       "\<forall>k. k \<noteq> ascii ''solicitudes'' \<longrightarrow> dict_get kvs1 k = dict_get ?kvs' k"
    by blast
  from k(3) have "\<forall>k. k \<noteq> ascii ''solicitudes'' \<longrightarrow> dict_get kvs1 k = dict_get kvs k"
    by (simp add: dict_get_dict_set)
  with k(1,2) show ?case by simp
qed

text \<open>
  The run does end normally when every line typed is non-empty and the record and the new
  requests encode.
\<close>

lemma run_appends_total:
  assumes "\<forall>r \<in> set rs. normalize_name (fst r) = key \<and> strip (fst r) \<noteq> []
             \<and> strip (fst (snd r)) \<noteq> [] \<and> strip (fst (snd (snd r))) \<noteq> []
             \<and> json_encodable (request_of r)"
      and "index key = Some fn"
      and "fn \<noteq> []"
      and "clients w fn = Some (Parsed (JObj kvs))"
      and "dict_get kvs (ascii ''solicitudes'') = Some (JArr reqs)"
      and "json_encodable (JObj kvs)"
  shows "\<exists>w1. run_appends index w rs = (Done, w1)"
  using assms
proof (induction rs arbitrary: w kvs reqs)
  case Nil
  then show ?case by simp
next
  case (Cons r rs)
  obtain n s d u t where r: "r = (n, s, d, u, t)" by (cases r) auto
  let ?kvs' = "dict_set kvs (ascii ''solicitudes'') (JArr (reqs @ [request_of r]))"
  let ?w' = "record_written w fn (JObj ?kvs')"
  have found: "find_client_file index w n = Some fn"
    using Cons.prems r by (simp add: find_client_file_Some)
  have "json_encodable (JArr reqs)"
    using Cons.prems(5,6) by (rule dict_get_encodable [rotated])
  then have "json_encodable (JArr (reqs @ [request_of r]))"
    using Cons.prems(1) by simp
  then have enc: "json_encodable (JObj ?kvs')"
    using Cons.prems(6) by (intro json_encodable_dict_set str_encodable_ascii)
  have wr: "write_record w fn (JObj ?kvs') = (None, ?w')"
    using Cons.prems(4) enc by (simp add: write_record_def)
  have m: "modify_client index w n (ascii ''2'') s d u t = (Done, index, ?w')"
    using Cons.prems(1,4,5) r found wr
    by (simp add: modify_client_unfold read_record_def strip_two one_not_two [symmetric]
          append_item_def require_non_empty_eq)
  have 1: "clients ?w' fn = Some (Parsed (JObj ?kvs'))"
    by (simp add: record_written_def)
  have 2: "dict_get ?kvs' (ascii ''solicitudes'') = Some (JArr (reqs @ [request_of r]))"
    by (simp add: dict_get_dict_set)
  have 3: "\<forall>r \<in> set rs. normalize_name (fst r) = key \<and> strip (fst r) \<noteq> []
             \<and> strip (fst (snd r)) \<noteq> [] \<and> strip (fst (snd (snd r))) \<noteq> []
             \<and> json_encodable (request_of r)"
    using Cons.prems(1) by simp
  from Cons.IH [OF 3 Cons.prems(2,3) 1 2 enc] obtain w1 where "run_appends index ?w' rs = (Done, w1)"
    by blast
  then show ?case using m r by simp
qed

theorem appends_extend_requests_witness:
  "\<exists>w1 kvs1.
     run_appends ana_index ana_world
       [(ascii ''Ana'', ascii ''TV'', ascii ''alta'', ascii ''u5'', ascii ''t5''),
        (ascii ''ana'', ascii ''TV'', ascii ''alta'', ascii ''u6'', ascii ''t6'')] = (Done, w1)
   \<and> clients w1 ana_file = Some (Parsed (JObj kvs1))
   \<and> dict_get kvs1 (ascii ''solicitudes'')
       = Some (JArr [ana_request,
                     new_request (ascii ''u5'') (ascii ''TV'') (ascii ''alta'') (ascii ''t5''),
                     new_request (ascii ''u6'') (ascii ''TV'') (ascii ''alta'') (ascii ''t6'')])"
proof -
  let ?rs = "[(ascii ''Ana'', ascii ''TV'', ascii ''alta'', ascii ''u5'', ascii ''t5''),
              (ascii ''ana'', ascii ''TV'', ascii ''alta'', ascii ''u6'', ascii ''t6'')]"
  have names: "\<forall>r \<in> set ?rs. normalize_name (fst r) = ascii ''ana''"
    by (simp add: normalize_Ana normalize_ana)
  have lines: "\<forall>r \<in> set ?rs. normalize_name (fst r) = ascii ''ana'' \<and> strip (fst r) \<noteq> []
             \<and> strip (fst (snd r)) \<noteq> [] \<and> strip (fst (snd (snd r))) \<noteq> []
             \<and> json_encodable (request_of r)"
    by (simp add: normalize_Ana normalize_ana strip_Ana strip_ana strip_TV strip_alta
          require_non_empty_eq json_encodable_new_request str_encodable_ascii)
       (simp add: ascii_def)
  have enc: "json_encodable (JObj [(ascii ''customer_id'', JStr (ascii ''u1'')),
           (ascii ''nombre'', JStr (ascii ''Ana'')),
           (ascii ''tipo_cliente'', JStr (ascii ''Persona'')),
           (ascii ''contacto'', JStr (ascii ''N/A'')),
           (ascii ''fecha_alta'', JStr (ascii ''t1'')),
           (ascii ''solicitudes'', JArr [ana_request])])"
    by (simp add: str_encodable_ascii ana_request_def json_encodable_new_request)
  have rec: "clients ana_world ana_file = Some (Parsed (JObj [(ascii ''customer_id'', JStr (ascii ''u1'')),
           (ascii ''nombre'', JStr (ascii ''Ana'')),
           (ascii ''tipo_cliente'', JStr (ascii ''Persona'')),
           (ascii ''contacto'', JStr (ascii ''N/A'')),
           (ascii ''fecha_alta'', JStr (ascii ''t1'')),
           (ascii ''solicitudes'', JArr [ana_request])]))"
    by (simp add: ana_file_exists ana_record_kvs)
  have reqs: "dict_get [(ascii ''customer_id'', JStr (ascii ''u1'')),
           (ascii ''nombre'', JStr (ascii ''Ana'')),
           (ascii ''tipo_cliente'', JStr (ascii ''Persona'')),
           (ascii ''contacto'', JStr (ascii ''N/A'')),
           (ascii ''fecha_alta'', JStr (ascii ''t1'')),
           (ascii ''solicitudes'', JArr [ana_request])] (ascii ''solicitudes'') = Some (JArr [ana_request])"
    using new_client_requests [OF ana_record_kvs [unfolded ana_record_def]] .
  have "\<exists>w1. run_appends ana_index ana_world ?rs = (Done, w1)"
    using lines ana_index_ana ana_file_nonempty rec reqs enc by (rule run_appends_total)
  then obtain w1 where run: "run_appends ana_index ana_world ?rs = (Done, w1)" by blast
  have "\<exists>kvs1. clients w1 ana_file = Some (Parsed (JObj kvs1))
           \<and> dict_get kvs1 (ascii ''solicitudes'') = Some (JArr ([ana_request] @ map request_of ?rs))
           \<and> (\<forall>k. k \<noteq> ascii ''solicitudes'' \<longrightarrow> dict_get kvs1 k
                 = dict_get [(ascii ''customer_id'', JStr (ascii ''u1'')),
           (ascii ''nombre'', JStr (ascii ''Ana'')),
           (ascii ''tipo_cliente'', JStr (ascii ''Persona'')),
           (ascii ''contacto'', JStr (ascii ''N/A'')),
           (ascii ''fecha_alta'', JStr (ascii ''t1'')),
           (ascii ''solicitudes'', JArr [ana_request])] k)"
    using run names ana_index_ana rec reqs by (rule appends_extend_requests)
  then obtain kvs1 where "clients w1 ana_file = Some (Parsed (JObj kvs1))"
    and "dict_get kvs1 (ascii ''solicitudes'') = Some (JArr ([ana_request] @ map request_of ?rs))"
    by blast
  with run show ?thesis
    by (simp add: require_non_empty_eq strip_TV strip_alta)
qed

section \<open>Requests are never removed\<close>

lemma exc_of_Some: "exc_of out = Some e \<longleftrightarrow> out = Raised e"
  by (cases out) auto

lemma exc_of_None: "exc_of out = None \<longleftrightarrow> (\<forall>e. out \<noteq> Raised e)"
  by (cases out) auto

lemma strip_surrogate: "strip [56448] = [56448]"
  by (simp add: strip_def isspace_def)

lemma has_requests_iff:
  "has_requests c \<longleftrightarrow>
     (\<exists>kvs reqs. c = Parsed (JObj kvs) \<and> dict_get kvs (ascii ''solicitudes'') = Some (JArr reqs)
        \<and> reqs \<noteq> [])"
  by (auto simp: has_requests_def split: entry.splits json.splits option.splits)

text \<open>
  One call of \<open>modify_client\<close>, unless the dump raised: a record's requests are what they
  were, or what they were and a new one after them.
\<close>

lemma modify_keeps_requests:
  assumes "modify_client index w n opt a b u t = (out, index1, w1)"
      and "out \<noteq> Raised UnicodeEncodeError"
      and "clients w fn = Some (Parsed (JObj kvs))"
      and "dict_get kvs (ascii ''solicitudes'') = Some (JArr reqs)"
  shows "\<exists>kvs1 extra. clients w1 fn = Some (Parsed (JObj kvs1))
           \<and> dict_get kvs1 (ascii ''solicitudes'') = Some (JArr (reqs @ extra))"
proof (cases "out = Done")
  case False
  with assms(1,2) have "w1 = w" using modify_client_unchanged by blast
  with assms(3,4) show ?thesis by auto
next
  case True
  with assms(1) have "modify_client index w n opt a b u t = (Done, index1, w1)" by simp
  from modify_client_Done [OF this]
  obtain path kvs0 where
    p: "clients w path = Some (Parsed (JObj kvs0))"
    and alt: "w1 = record_written w path (JObj (dict_set kvs0 (ascii ''contacto'') (JStr (strip a))))
       \<or> (\<exists>xs. dict_get kvs0 (ascii ''solicitudes'') = Some (JArr xs)
             \<and> w1 = record_written w path
                      (JObj (dict_set kvs0 (ascii ''solicitudes'')
                         (JArr (xs @ [new_request u (strip a) (strip b) t])))))"
    by blast
  show ?thesis
  proof (cases "path = fn")
    case False
    with alt have "clients w1 fn = clients w fn"
      by (auto simp: record_written_def)
    with assms(3,4) show ?thesis by auto
  next
    case True
    with p assms(3) have same: "kvs0 = kvs" by simp
    from alt show ?thesis
    proof
      assume "w1 = record_written w path (JObj (dict_set kvs0 (ascii ''contacto'') (JStr (strip a))))"
      with True same assms(4) have
        "clients w1 fn = Some (Parsed (JObj (dict_set kvs (ascii ''contacto'') (JStr (strip a)))))
         \<and> dict_get (dict_set kvs (ascii ''contacto'') (JStr (strip a))) (ascii ''solicitudes'')
             = Some (JArr (reqs @ []))"
        using contacto_not_solicitudes by (simp add: record_written_def dict_get_dict_set)
      then show ?thesis by blast
    next
      assume "\<exists>xs. dict_get kvs0 (ascii ''solicitudes'') = Some (JArr xs)
             \<and> w1 = record_written w path
                      (JObj (dict_set kvs0 (ascii ''solicitudes'')
                         (JArr (xs @ [new_request u (strip a) (strip b) t]))))"
      with True same assms(4) have
        "clients w1 fn = Some (Parsed (JObj (dict_set kvs (ascii ''solicitudes'')
                         (JArr (reqs @ [new_request u (strip a) (strip b) t])))))
         \<and> dict_get (dict_set kvs (ascii ''solicitudes'')
                         (JArr (reqs @ [new_request u (strip a) (strip b) t]))) (ascii ''solicitudes'')
             = Some (JArr (reqs @ [new_request u (strip a) (strip b) t]))"
        by (auto simp: record_written_def dict_get_dict_set)
      then show ?thesis by blast
    qed
  qed
qed

lemma store_ok_modify:
  assumes "store_ok w"
      and "modify_client index w n opt a b u t = (out, index1, w1)"
      and "out \<noteq> Raised UnicodeEncodeError"
  shows "store_ok w1"
  unfolding store_ok_def
proof (intro allI impI)
  fix fn c
  assume c: "clients w1 fn = Some c"
  show "has_requests c"
  proof (cases "clients w fn")
    case None
    show ?thesis
    proof (cases "out = Done")
      case False
      with assms(2,3) have "w1 = w" using modify_client_unchanged by blast
      with None c show ?thesis by simp
    next
      case True
      with assms(2) have "modify_client index w n opt a b u t = (Done, index1, w1)" by simp
      from modify_client_Done [OF this]
      obtain path kvs0 cliente1 where "clients w path = Some (Parsed (JObj kvs0))"
        and "w1 = record_written w path cliente1"
        by blast
      with None c show ?thesis by (auto simp: record_written_def split: if_splits)
    qed
  next
    case (Some c0)
    with assms(1) have "has_requests c0" by (simp add: store_ok_def)
    then obtain kvs reqs where
      k: "c0 = Parsed (JObj kvs)" "dict_get kvs (ascii ''solicitudes'') = Some (JArr reqs)" "reqs \<noteq> []"
      by (auto simp: has_requests_iff)
    from modify_keeps_requests [OF assms(2,3)] Some k
    obtain kvs1 extra where "clients w1 fn = Some (Parsed (JObj kvs1))"
      and "dict_get kvs1 (ascii ''solicitudes'') = Some (JArr (reqs @ extra))"
      by blast
    with c k(3) show ?thesis by (auto simp: has_requests_iff)
  qed
qed

lemma store_ok_consult:
  assumes "store_ok w" and "consult_client index w n t = (out, index1, w1)"
  shows "store_ok w1"
  using assms
  by (auto simp: consult_client_unfold store_ok_def split: if_splits option.splits sum.splits)

lemma store_ok_delete:
  assumes "store_ok w" and "delete_client index w n confirm = (out, index1, w1)"
  shows "store_ok w1"
  using assms
  by (auto simp: delete_client_unfold store_ok_def save_index_def split: if_splits option.splits)

lemma store_ok_create:
  assumes "store_ok w"
      and "create_client index w n ti co se de cu an ru sn = (out, index1, w1)"
      and "out \<noteq> Raised UnicodeEncodeError"
  shows "store_ok w1"
  using assms
  by (auto simp: create_client_unfold store_ok_def save_index_def write_record_def
        record_written_def new_client_has_requests split: if_splits prod.splits)

lemma store_ok_main_loop:
  assumes "main_loop index w cmds = (r, w1)"
      and "r \<noteq> Some UnicodeEncodeError"
      and "store_ok w"
  shows "store_ok w1"
  using assms
proof (induction cmds arbitrary: index w)
  case Nil
  then show ?case by simp
next
  case (Cons c cmds)
  show ?case
  proof (cases c)
    case (Consult n t)
    obtain out index1 w' where m: "consult_client index w n t = (out, index1, w')"
      by (cases "consult_client index w n t") auto
    have ok: "store_ok w'" using Cons.prems(3) m by (rule store_ok_consult)
    show ?thesis
    proof (cases "exc_of out = None")
      case True
      with Cons.prems(1) Consult m have "main_loop index1 w' cmds = (r, w1)" by simp
      from Cons.IH [OF this Cons.prems(2) ok] show ?thesis .
    next
      case False
      with Cons.prems(1) Consult m ok show ?thesis by auto
    qed
  next
    case (Create n ti co se de cu an ru sn)
    obtain out index1 w' where
      m: "create_client index w n ti co se de cu an ru sn = (out, index1, w')"
      by (cases "create_client index w n ti co se de cu an ru sn") auto
    show ?thesis
    proof (cases "exc_of out = None")
      case True
      then have "out \<noteq> Raised UnicodeEncodeError" by (simp add: exc_of_None)
      with Cons.prems(3) m have ok: "store_ok w'" by (rule store_ok_create)
      from True Cons.prems(1) Create m have "main_loop (load_index w') w' cmds = (r, w1)" by simp
      from Cons.IH [OF this Cons.prems(2) ok] show ?thesis .
    next
      case False
      with Cons.prems(1) Create m have r: "r = exc_of out" and w: "w1 = w'" by auto
      from r Cons.prems(2) have "out \<noteq> Raised UnicodeEncodeError" by auto
      with Cons.prems(3) m have "store_ok w'" by (rule store_ok_create)
      with w show ?thesis by simp
    qed
  next
    case (Modify n opt a b u t)
    obtain out index1 w' where m: "modify_client index w n opt a b u t = (out, index1, w')"
      by (cases "modify_client index w n opt a b u t") auto
    show ?thesis
    proof (cases "exc_of out = None")
      case True
      then have "out \<noteq> Raised UnicodeEncodeError" by (simp add: exc_of_None)
      with Cons.prems(3) m have ok: "store_ok w'" by (rule store_ok_modify)
      from True Cons.prems(1) Modify m have "main_loop index1 w' cmds = (r, w1)" by simp
      from Cons.IH [OF this Cons.prems(2) ok] show ?thesis .
    next
      case False
      with Cons.prems(1) Modify m have r: "r = exc_of out" and w: "w1 = w'" by auto
      from r Cons.prems(2) have "out \<noteq> Raised UnicodeEncodeError" by auto
      with Cons.prems(3) m have "store_ok w'" by (rule store_ok_modify)
      with w show ?thesis by simp
    qed
  next
    case (Delete n confirm)
    obtain out index1 w' where m: "delete_client index w n confirm = (out, index1, w')"
      by (cases "delete_client index w n confirm") auto
    have ok: "store_ok w'" using Cons.prems(3) m by (rule store_ok_delete)
    show ?thesis
    proof (cases "exc_of out = None")
      case True
      with Cons.prems(1) Delete m have "main_loop (load_index w') w' cmds = (r, w1)" by simp
      from Cons.IH [OF this Cons.prems(2) ok] show ?thesis .
    next
      case False
      with Cons.prems(1) Delete m ok show ?thesis by auto
    qed
  qed
qed

lemma main_loop_modifies_keep:
  assumes "\<forall>c \<in> set cmds. is_modify c"
      and "main_loop index w cmds = (r, w1)"
      and "r \<noteq> Some UnicodeEncodeError"
      and "clients w fn = Some (Parsed (JObj kvs))"
      and "dict_get kvs (ascii ''solicitudes'') = Some (JArr reqs)"
  shows "\<exists>kvs1 extra. clients w1 fn = Some (Parsed (JObj kvs1))
           \<and> dict_get kvs1 (ascii ''solicitudes'') = Some (JArr (reqs @ extra))"
  using assms
proof (induction cmds arbitrary: index w kvs reqs)
  case Nil
  then have "clients w1 fn = Some (Parsed (JObj kvs))
           \<and> dict_get kvs (ascii ''solicitudes'') = Some (JArr (reqs @ []))"
    by simp
  then show ?case by blast
next
  case (Cons c cmds)
  from Cons.prems(1) obtain n opt a b u t where c: "c = Modify n opt a b u t"
    by (cases c) auto
  obtain out index1 w' where m: "modify_client index w n opt a b u t = (out, index1, w')"
    by (cases "modify_client index w n opt a b u t") auto
  have quiet: "out \<noteq> Raised UnicodeEncodeError"
  proof
    assume "out = Raised UnicodeEncodeError"
    with Cons.prems(2) c m have "r = Some UnicodeEncodeError" by simp
    with Cons.prems(3) show False by simp
  qed
  from modify_keeps_requests [OF m quiet Cons.prems(4,5)]
  obtain kvs1 extra where
    k: "clients w' fn = Some (Parsed (JObj kvs1))"
       "dict_get kvs1 (ascii ''solicitudes'') = Some (JArr (reqs @ extra))"
    by blast
  show ?case
  proof (cases "exc_of out = None")
    case False
    with Cons.prems(2) c m have "w1 = w'" by auto
    with k show ?thesis by blast
  next
    case True
    with Cons.prems(2) c m have rest: "main_loop index1 w' cmds = (r, w1)" by simp
    from Cons.prems(1) have "\<forall>c \<in> set cmds. is_modify c" by simp
    from Cons.IH [OF this rest Cons.prems(3) k]
    obtain kvs2 extra2 where
      "clients w1 fn = Some (Parsed (JObj kvs2))"
      "dict_get kvs2 (ascii ''solicitudes'') = Some (JArr ((reqs @ extra) @ extra2))"
      by blast
    then have "clients w1 fn = Some (Parsed (JObj kvs2))
       \<and> dict_get kvs2 (ascii ''solicitudes'') = Some (JArr (reqs @ (extra @ extra2)))"
      by simp
    then show ?thesis by blast
  qed
qed

text \<open>
  C8, as stated, at the customer "Ana" right after its creation in the empty directory,
  and a contact update whose new value is the lone surrogate U+DC80 (what \<open>input()\<close>
  returns for the byte 0x80 under \<open>surrogateescape\<close>): \<open>modify_client\<close> opens the record
  file for writing, the dump raises \<open>UnicodeEncodeError\<close>, and the file is left with text
  that does not parse. The record and its requests are gone.
\<close>

theorem modify_truncates_record_counterexample:
  "create_client index_empty w_empty (ascii ''Ana'') [] [] (ascii ''TV'') (ascii ''alta'')
     (ascii ''u1'') (ascii ''t1'') (ascii ''u2'') (ascii ''t2'') = (Done, ana_index, ana_world)
   \<and> has_requests (Parsed ana_record)
   \<and> clients ana_world ana_file = Some (Parsed ana_record)
   \<and> modify_client ana_index ana_world (ascii ''Ana'') (ascii ''1'') [56448] []
        (ascii ''u5'') (ascii ''t5'')
      = (Raised UnicodeEncodeError, ana_index, record_truncated ana_world ana_file)
   \<and> clients (record_truncated ana_world ana_file) ana_file = Some Unparseable
   \<and> \<not> has_requests Unparseable"
proof -
  have upd: "set_item ana_record (ascii ''contacto'') (JStr [56448])
               = Inr (new_client (ascii ''u1'') (ascii ''Ana'') (ascii ''Persona'') [56448]
                        (ascii ''t1'') ana_request)"
    by (simp add: ana_record_def new_client_def set_item_def) (simp add: ascii_def)
  have enc: "\<not> json_encodable (new_client (ascii ''u1'') (ascii ''Ana'') (ascii ''Persona'')
                                 [56448] (ascii ''t1'') ana_request)"
    by (simp add: json_encodable_new_client str_encodable_def)
  have wr: "write_record ana_world ana_file
              (new_client (ascii ''u1'') (ascii ''Ana'') (ascii ''Persona'') [56448]
                 (ascii ''t1'') ana_request)
            = (Some UnicodeEncodeError, record_truncated ana_world ana_file)"
    by (simp add: write_record_def enc ana_file_exists)
  have m: "modify_client ana_index ana_world (ascii ''Ana'') (ascii ''1'') [56448] []
        (ascii ''u5'') (ascii ''t5'')
      = (Raised UnicodeEncodeError, ana_index, record_truncated ana_world ana_file)"
    by (simp add: modify_client_unfold strip_Ana find_Ana read_record_def ana_file_exists
          strip_one strip_surrogate upd wr)
       (simp add: ascii_def)
  have h: "has_requests (Parsed ana_record)"
    by (simp add: ana_record_def new_client_has_requests)
  have nh: "\<not> has_requests Unparseable"
    by (simp add: has_requests_def)
  have gone: "clients (record_truncated ana_world ana_file) ana_file = Some Unparseable"
    by (simp add: record_truncated_def)
  from create_Ana h ana_file_exists m gone nh show ?thesis
    by blast
qed

text \<open>
  C8, amended: when \<open>create_client\<close> ends normally, the record it wrote holds exactly one
  request, the one seeded. After any sequence of \<open>modify_client\<close> calls (contact update or
  request append, on any customer) in which no dump of a record raised
  \<open>UnicodeEncodeError\<close>, the record is still there and its \<open>solicitudes\<close> starts with the
  seeded request, so it is not empty; and such a sequence removes no request of any
  record: the \<open>solicitudes\<close> of every record is what it was, followed by what was
  appended. If every record file had a request before the create, every record file has
  one after any sequence of consult, create, modify and delete that follows and does not
  end in that exception.
\<close>

theorem requests_never_removed:
  assumes "create_client index w name_in tipo_in contacto_in servicio_in descripcion_in
             cu an ru sn = (Done, index1, w1)"
  shows "(\<exists>kvs. clients w1 (client_filename cu (strip name_in)) = Some (Parsed (JObj kvs))
            \<and> dict_get kvs (ascii ''solicitudes'')
                = Some (JArr [new_request ru (strip servicio_in) (strip descripcion_in) sn]))
     \<and> (\<forall>cmds r w2.
           (\<forall>c \<in> set cmds. is_modify c) \<and> main_loop index1 w1 cmds = (r, w2)
             \<and> r \<noteq> Some UnicodeEncodeError \<longrightarrow>
           (\<exists>kvs extra.
              clients w2 (client_filename cu (strip name_in)) = Some (Parsed (JObj kvs))
            \<and> dict_get kvs (ascii ''solicitudes'')
                = Some (JArr (new_request ru (strip servicio_in) (strip descripcion_in) sn
                              # extra))))
     \<and> (\<forall>index2 w2 fn kvs reqs cmds r w3.
           clients w2 fn = Some (Parsed (JObj kvs))
             \<and> dict_get kvs (ascii ''solicitudes'') = Some (JArr reqs)
             \<and> (\<forall>c \<in> set cmds. is_modify c) \<and> main_loop index2 w2 cmds = (r, w3)
             \<and> r \<noteq> Some UnicodeEncodeError \<longrightarrow>
           (\<exists>kvs1 extra. clients w3 fn = Some (Parsed (JObj kvs1))
              \<and> dict_get kvs1 (ascii ''solicitudes'') = Some (JArr (reqs @ extra))))
     \<and> (store_ok w \<longrightarrow>
          (\<forall>cmds r w2. main_loop index1 w1 cmds = (r, w2) \<and> r \<noteq> Some UnicodeEncodeError
             \<longrightarrow> store_ok w2))"
proof -
  let ?fn = "client_filename cu (strip name_in)"
  let ?seed = "new_request ru (strip servicio_in) (strip descripcion_in) sn"
  from assms obtain kvs where
    rec: "clients w1 ?fn = Some (Parsed (JObj kvs))"
    and kvs: "JObj kvs = new_client cu (strip name_in)
                (if strip tipo_in = [] then ascii ''Persona'' else strip tipo_in)
                (if strip contacto_in = [] then ascii ''N/A'' else strip contacto_in) an ?seed"
    by (auto simp: create_client_unfold save_index_def write_record_None record_written_def
          new_client_def split: if_splits prod.splits option.splits)
  have reqs: "dict_get kvs (ascii ''solicitudes'') = Some (JArr [?seed])"
    using new_client_requests [OF kvs [symmetric]] .
  have 1: "\<exists>kvs. clients w1 ?fn = Some (Parsed (JObj kvs))
            \<and> dict_get kvs (ascii ''solicitudes'') = Some (JArr [?seed])"
    using rec reqs by blast
  have 3: "\<forall>index2 w2 fn kvs reqs cmds r w3.
           clients w2 fn = Some (Parsed (JObj kvs))
             \<and> dict_get kvs (ascii ''solicitudes'') = Some (JArr reqs)
             \<and> (\<forall>c \<in> set cmds. is_modify c) \<and> main_loop index2 w2 cmds = (r, w3)
             \<and> r \<noteq> Some UnicodeEncodeError \<longrightarrow>
           (\<exists>kvs1 extra. clients w3 fn = Some (Parsed (JObj kvs1))
              \<and> dict_get kvs1 (ascii ''solicitudes'') = Some (JArr (reqs @ extra)))"
    using main_loop_modifies_keep by blast
  have 2: "\<forall>cmds r w2.
           (\<forall>c \<in> set cmds. is_modify c) \<and> main_loop index1 w1 cmds = (r, w2)
             \<and> r \<noteq> Some UnicodeEncodeError \<longrightarrow>
           (\<exists>kvs extra. clients w2 ?fn = Some (Parsed (JObj kvs))
            \<and> dict_get kvs (ascii ''solicitudes'') = Some (JArr (?seed # extra)))"
  proof (intro allI impI)
    fix cmds r w2
    assume a: "(\<forall>c \<in> set cmds. is_modify c) \<and> main_loop index1 w1 cmds = (r, w2)
             \<and> r \<noteq> Some UnicodeEncodeError"
    then have "\<exists>kvs1 extra. clients w2 ?fn = Some (Parsed (JObj kvs1))
           \<and> dict_get kvs1 (ascii ''solicitudes'') = Some (JArr ([?seed] @ extra))"
      using rec reqs by (intro main_loop_modifies_keep [of cmds index1 w1 r w2 ?fn kvs]) auto
    then show "\<exists>kvs extra. clients w2 ?fn = Some (Parsed (JObj kvs))
            \<and> dict_get kvs (ascii ''solicitudes'') = Some (JArr (?seed # extra))"
      by simp
  qed
  have made: "store_ok w \<Longrightarrow> store_ok w1"
    using store_ok_create [OF _ assms] by simp
  have 4: "store_ok w \<longrightarrow>
          (\<forall>cmds r w2. main_loop index1 w1 cmds = (r, w2) \<and> r \<noteq> Some UnicodeEncodeError
             \<longrightarrow> store_ok w2)"
    using made store_ok_main_loop by blast
  from 1 2 3 4 show ?thesis by blast
qed

theorem requests_never_removed_witness:
  "(\<exists>kvs. clients ana_world ana_file = Some (Parsed (JObj kvs))
      \<and> dict_get kvs (ascii ''solicitudes'') = Some (JArr [ana_request]))
   \<and> main_loop ana_index ana_world
        [Modify (ascii ''Ana'') (ascii ''1'') (ascii ''555'') [] (ascii ''u5'') (ascii ''t5'')]
      = (None, record_written ana_world ana_file
                 (new_client (ascii ''u1'') (ascii ''Ana'') (ascii ''Persona'') (ascii ''555'')
                    (ascii ''t1'') ana_request))
   \<and> (\<exists>kvs extra.
        clients (record_written ana_world ana_file
                   (new_client (ascii ''u1'') (ascii ''Ana'') (ascii ''Persona'') (ascii ''555'')
                      (ascii ''t1'') ana_request)) ana_file
          = Some (Parsed (JObj kvs))
      \<and> dict_get kvs (ascii ''solicitudes'') = Some (JArr (ana_request # extra)))
   \<and> store_ok (record_written ana_world ana_file
                 (new_client (ascii ''u1'') (ascii ''Ana'') (ascii ''Persona'') (ascii ''555'')
                    (ascii ''t1'') ana_request))"
proof -
  let ?cmds = "[Modify (ascii ''Ana'') (ascii ''1'') (ascii ''555'') [] (ascii ''u5'') (ascii ''t5'')]"
  let ?w2 = "record_written ana_world ana_file
                 (new_client (ascii ''u1'') (ascii ''Ana'') (ascii ''Persona'') (ascii ''555'')
                    (ascii ''t1'') ana_request)"
  note t = requests_never_removed [OF create_Ana]
  have fn: "client_filename (ascii ''u1'') (strip (ascii ''Ana'')) = ana_file"
    by (simp add: client_filename_def strip_Ana slugify_Ana ana_file_def) (simp add: ascii_def)
  have seed: "new_request (ascii ''u2'') (strip (ascii ''TV'')) (strip (ascii ''alta'')) (ascii ''t2'')
                = ana_request"
    by (simp add: strip_TV strip_alta ana_request_def)
  have ok: "store_ok w_empty"
    by (simp add: store_ok_def w_empty_def)
  have run: "main_loop ana_index ana_world ?cmds = (None, ?w2)"
    by (simp add: modify_Ana_contact)
  have mods: "\<forall>c \<in> set ?cmds. is_modify c"
    by simp
  have quiet: "(None :: pyexc option) \<noteq> Some UnicodeEncodeError"
    by simp
  from t have a: "\<exists>kvs. clients ana_world ana_file = Some (Parsed (JObj kvs))
      \<and> dict_get kvs (ascii ''solicitudes'') = Some (JArr [ana_request])"
    unfolding fn seed by blast
  from t have "\<forall>cmds r w2.
           (\<forall>c \<in> set cmds. is_modify c) \<and> main_loop ana_index ana_world cmds = (r, w2)
             \<and> r \<noteq> Some UnicodeEncodeError \<longrightarrow>
           (\<exists>kvs extra. clients w2 ana_file = Some (Parsed (JObj kvs))
            \<and> dict_get kvs (ascii ''solicitudes'') = Some (JArr (ana_request # extra)))"
    unfolding fn seed by blast
  with mods run quiet have b: "\<exists>kvs extra. clients ?w2 ana_file = Some (Parsed (JObj kvs))
      \<and> dict_get kvs (ascii ''solicitudes'') = Some (JArr (ana_request # extra))"
    by blast
  from t ok have "\<forall>cmds r w2. main_loop ana_index ana_world cmds = (r, w2)
             \<and> r \<noteq> Some UnicodeEncodeError \<longrightarrow> store_ok w2"
    by blast
  with run quiet have c: "store_ok ?w2"
    by blast
  from a run b c show ?thesis by blast
qed

section \<open>The normalizer applied twice\<close>

lemma key_char_space: "key_char c \<Longrightarrow> isspace c \<Longrightarrow> c = 32"
  by (auto simp: key_char_def isspace_def)

lemma isspace_32: "isspace 32"
  by (simp add: isspace_def)

lemma key_char_32: "key_char 32"
  by (simp add: key_char_def)

lemma lower_cp_key_char: "key_char c \<Longrightarrow> lower_cp c = [c]"
  by (auto simp: key_char_def lower_cp_def)

lemma lower_key_chars: "\<forall>c \<in> set s. key_char c \<Longrightarrow> lower s = s"
  by (induction s) (simp_all add: lower_def lower_cp_key_char)

lemma sub_class_key_chars:
  "\<forall>c \<in> set s. key_char c \<Longrightarrow> \<forall>c \<in> set cls. \<not> key_char c \<Longrightarrow> sub_class cls r s = s"
  unfolding sub_class_def by (rule map_idI) auto

lemma filter_key_chars: "\<forall>c \<in> set s. key_char c \<Longrightarrow> filter key_char s = s"
  by simp

lemma set_collapse_ws: "set (collapse_ws l) \<subseteq> insert 32 (set l)"
proof (induction l rule: collapse_ws.induct)
  case 1
  then show ?case by simp
next
  case (2 c cs)
  then show ?case by (auto dest: set_dropWhileD)
qed

lemma set_strip: "set (strip s) \<subseteq> set s"
proof
  fix c
  assume "c \<in> set (strip s)"
  then have "c \<in> set (dropWhile isspace (rev (dropWhile isspace s)))"
    by (simp add: strip_def)
  then have "c \<in> set (rev (dropWhile isspace s))"
    by (rule set_dropWhileD)
  then have "c \<in> set (dropWhile isspace s)"
    by simp
  then show "c \<in> set s"
    by (rule set_dropWhileD)
qed

lemma normalize_Nil: "normalize_name [] = []"
  by (simp add: normalize_name_def strip_def lower_def sub_class_def)

lemma normalize_key_chars: "\<forall>c \<in> set (normalize_name x). key_char c"
proof
  fix c
  assume "c \<in> set (normalize_name x)"
  then have "c = 32 \<or> c \<in> set (filter key_char
         (sub_class [250, 249, 252] 117
           (sub_class [243, 242, 246] 111
             (sub_class [237, 236, 239] 105
               (sub_class [233, 232, 235] 101
                 (sub_class [225, 224, 228] 97
                   (lower (strip x))))))))"
    unfolding normalize_name_def using set_collapse_ws by blast
  then show "key_char c" using key_char_32 by auto
qed

lemma ws_ok_nonspace: "\<not> isspace c \<Longrightarrow> ws_ok (c # r) = ws_ok r"
  by (cases r) auto

lemma collapse_ws_head:
  "l = [] \<or> \<not> isspace (hd l) \<Longrightarrow> collapse_ws l = [] \<or> \<not> isspace (hd (collapse_ws l))"
  by (cases l) auto

lemma ws_ok_collapse_ws: "ws_ok (collapse_ws l)"
proof (induction l rule: collapse_ws.induct)
  case 1
  then show ?case by simp
next
  case (2 c cs)
  show ?case
  proof (cases "isspace c")
    case False
    with 2 show ?thesis by (simp add: ws_ok_nonspace)
  next
    case True
    have "dropWhile isspace cs = [] \<or> \<not> isspace (hd (dropWhile isspace cs))"
      using hd_dropWhile by blast
    then have h: "collapse_ws (dropWhile isspace cs) = []
               \<or> \<not> isspace (hd (collapse_ws (dropWhile isspace cs)))"
      by (rule collapse_ws_head)
    have ih: "ws_ok (collapse_ws (dropWhile isspace cs))"
      using 2 True by simp
    from h ih have "ws_ok (32 # collapse_ws (dropWhile isspace cs))"
      by (cases "collapse_ws (dropWhile isspace cs)") (auto simp: isspace_32)
    with True show ?thesis by simp
  qed
qed

lemma collapse_ws_fixed: "ws_ok l \<Longrightarrow> collapse_ws l = l"
proof (induction l rule: ws_ok.induct)
  case 1
  then show ?case by simp
next
  case (2 c)
  then show ?case by simp
next
  case (3 c d cs)
  then show ?case by auto
qed

lemma ws_ok_tail: "ws_ok (c # cs) \<Longrightarrow> ws_ok cs"
  by (cases cs) auto

lemma ws_ok_suffix: "ws_ok (xs @ ys) \<Longrightarrow> ws_ok ys"
  by (induction xs) (auto dest: ws_ok_tail)

lemma ws_ok_prefix: "ws_ok (xs @ ys) \<Longrightarrow> ws_ok xs"
proof (induction xs rule: ws_ok.induct)
  case 1
  then show ?case by simp
next
  case (2 c)
  then show ?case by (cases ys) auto
next
  case (3 c d cs)
  then show ?case by auto
qed

lemma ws_ok_strip: "ws_ok s \<Longrightarrow> ws_ok (strip s)"
proof -
  assume ok: "ws_ok s"
  have "ws_ok (takeWhile isspace s @ dropWhile isspace s)"
    using ok by simp
  then have t: "ws_ok (dropWhile isspace s)"
    by (rule ws_ok_suffix)
  have "ws_ok (rev (dropWhile isspace (rev (dropWhile isspace s)))
               @ rev (takeWhile isspace (rev (dropWhile isspace s))))"
    using t by (simp only: rstrip_prefix)
  then show ?thesis
    unfolding strip_def by (rule ws_ok_prefix)
qed

lemma normalize_twice: "normalize_name (normalize_name x) = strip (normalize_name x)"
proof -
  let ?y = "strip (normalize_name x)"
  have k: "\<forall>c \<in> set ?y. key_char c"
    using normalize_key_chars set_strip by blast
  have ok: "ws_ok ?y"
    unfolding normalize_name_def by (rule ws_ok_strip) (rule ws_ok_collapse_ws)
  have "normalize_name (normalize_name x) = collapse_ws ?y"
    unfolding normalize_name_def [of "normalize_name x"]
    using k by (simp add: lower_key_chars sub_class_key_chars key_char_def)
  also have "\<dots> = ?y"
    using ok by (rule collapse_ws_fixed)
  finally show ?thesis .
qed

lemma normalize_idempotent_iff:
  "normalize_name (normalize_name x) = normalize_name x \<longleftrightarrow>
     normalize_name x = [] \<or>
     (hd (normalize_name x) \<noteq> 32 \<and> last (normalize_name x) \<noteq> 32)"
proof -
  let ?y = "normalize_name x"
  have sp: "\<And>c. c \<in> set ?y \<Longrightarrow> (isspace c \<longleftrightarrow> c = 32)"
    using normalize_key_chars key_char_space isspace_32 by blast
  show ?thesis
  proof (cases "?y = []")
    case True
    then show ?thesis by (simp add: normalize_Nil)
  next
    case False
    then have hl: "hd ?y \<in> set ?y" "last ?y \<in> set ?y" by simp_all
    have "strip ?y = ?y \<longleftrightarrow> \<not> isspace (hd ?y) \<and> \<not> isspace (last ?y)"
    proof
      assume e: "strip ?y = ?y"
      with False have "strip ?y \<noteq> []" by simp
      then have "\<not> isspace (hd (strip ?y))" "\<not> isspace (last (strip ?y))"
        by (rule strip_head, rule strip_last)
      with e show "\<not> isspace (hd ?y) \<and> \<not> isspace (last ?y)" by simp
    next
      assume "\<not> isspace (hd ?y) \<and> \<not> isspace (last ?y)"
      then show "strip ?y = ?y" by (simp add: strip_fixed)
    qed
    with False hl sp show ?thesis by (simp add: normalize_twice)
  qed
qed

text \<open>
  A second application of \<open>normalize_name\<close> only trims: it returns the key it is given
  with the spaces at its two ends removed (\<open>normalize_twice\<close>), so the two differ exactly
  when the key starts or ends with a space (\<open>normalize_idempotent_iff\<close>).
\<close>

text \<open>
  C3 says that \<open>normalize_name\<close> applied twice gives what it gives applied once, for
  every input. At the name "Ana !" it does not: the mark is deleted after the trimming,
  the space before it stays at the end of the key, and a second application trims it.
\<close>

theorem normalize_twice_differs:
  "normalize_name (ascii ''Ana !'') = ascii ''ana ''
   \<and> normalize_name (normalize_name (ascii ''Ana !'')) = ascii ''ana''
   \<and> normalize_name (normalize_name (ascii ''Ana !'')) \<noteq> normalize_name (ascii ''Ana !'')"
proof -
  have 1: "normalize_name (ascii ''Ana !'') = ascii ''ana ''"
    by (simp add: normalize_name_def str_eval)
  have 2: "normalize_name (ascii ''ana '') = ascii ''ana''"
    by (simp add: normalize_name_def str_eval)
  have 3: "ascii ''ana'' \<noteq> ascii ''ana ''"
    by (simp add: ascii_def)
  from 1 2 3 show ?thesis by simp
qed

end
